theory Spec2Isabelle
  imports Main "HOL-Library.AList"
begin

section \<open>Data model of \<^verbatim>\<open>internal/sync.go\<close>\<close>

text \<open>
  The synchroniser reads users and groups from a Google directory and conforms an AWS SSO
  (SCIM) store to them. The records below carry the fields that \<^verbatim>\<open>sync.go\<close> reads or
  writes. Go pointers to these structs are modelled as values: no function of the file
  mutates a user or a group through a pointer.
\<close>

text \<open>\<^verbatim>\<open>admin.User\<close>: \<^verbatim>\<open>PrimaryEmail\<close>, \<^verbatim>\<open>Name.GivenName\<close>, \<^verbatim>\<open>Name.FamilyName\<close>, \<^verbatim>\<open>Suspended\<close>.\<close>

record google_user =
  PrimaryEmail :: string
  G_GivenName :: string
  G_FamilyName :: string
  Suspended :: bool

text \<open>\<^verbatim>\<open>admin.Group\<close>: \<^verbatim>\<open>Email\<close> and \<^verbatim>\<open>Name\<close>.\<close>

record google_group =
  Email :: string
  Name :: string

text \<open>\<^verbatim>\<open>admin.Member\<close>: \<^verbatim>\<open>Email\<close> and \<^verbatim>\<open>Type\<close>.\<close>

record google_member =
  M_Email :: string
  M_Type :: string

text \<open>\<^verbatim>\<open>aws.User\<close>: \<^verbatim>\<open>ID\<close>, \<^verbatim>\<open>Username\<close>, \<^verbatim>\<open>Name.GivenName\<close>, \<^verbatim>\<open>Name.FamilyName\<close>, \<^verbatim>\<open>Active\<close>.\<close>

record aws_user =
  ID :: string
  Username :: string
  GivenName :: string
  FamilyName :: string
  Active :: bool

text \<open>\<^verbatim>\<open>aws.Group\<close>: \<^verbatim>\<open>ID\<close> and \<^verbatim>\<open>DisplayName\<close>.\<close>

record aws_group =
  GroupID :: string
  DisplayName :: string

text \<open>The fields of \<^verbatim>\<open>config.Config\<close> that the filter policy reads.\<close>

record config =
  IgnoreUsers :: "string list"
  IgnoreGroups :: "string list"
  IncludeGroups :: "string list"

text \<open>
  Modelled from the spec: the constructors \<^verbatim>\<open>aws.NewUser\<close>, \<^verbatim>\<open>aws.UpdateUser\<close> and
  \<^verbatim>\<open>aws.NewGroup\<close> of the package \<^verbatim>\<open>internal/aws\<close>, which is not among the sources. A new
  target user is built from the four attributes it is given (given name, family name, email as
  the username, active flag) and has no identifier yet; \<^verbatim>\<open>aws.UpdateUser\<close> builds the same
  record with the identifier of the user to replace; a new group carries its display name.
\<close>

definition NewUser :: "string \<Rightarrow> string \<Rightarrow> string \<Rightarrow> bool \<Rightarrow> aws_user" where
  "NewUser firstName lastName email active =
     \<lparr>ID = [], Username = email, GivenName = firstName, FamilyName = lastName, Active = active\<rparr>"

definition UpdateUserRecord :: "string \<Rightarrow> string \<Rightarrow> string \<Rightarrow> string \<Rightarrow> bool \<Rightarrow> aws_user" where
  "UpdateUserRecord uid firstName lastName email active =
     \<lparr>ID = uid, Username = email, GivenName = firstName, FamilyName = lastName, Active = active\<rparr>"

definition NewGroup :: "string \<Rightarrow> aws_group" where
  "NewGroup groupName = \<lparr>GroupID = [], DisplayName = groupName\<rparr>"


section \<open>Filter policy\<close>

text \<open>
  \<^verbatim>\<open>ignoreUser\<close>, \<^verbatim>\<open>ignoreGroup\<close> and \<^verbatim>\<open>includeGroup\<close> each scan one list of the
  configuration and return true at the first entry equal to the name, false when the list is
  exhausted.
\<close>

fun scan :: "string list \<Rightarrow> string \<Rightarrow> bool" where
  "scan [] name = False"
| "scan (u # us) name = (if u = name then True else scan us name)"

definition ignoreUser :: "config \<Rightarrow> string \<Rightarrow> bool" where
  "ignoreUser cfg name = scan (IgnoreUsers cfg) name"

definition ignoreGroup :: "config \<Rightarrow> string \<Rightarrow> bool" where
  "ignoreGroup cfg name = scan (IgnoreGroups cfg) name"

definition includeGroup :: "config \<Rightarrow> string \<Rightarrow> bool" where
  "includeGroup cfg name = scan (IncludeGroups cfg) name"

text \<open>
  The guard at the head of the group loop of \<^verbatim>\<open>SyncGroups\<close>:
  \<^verbatim>\<open>if s.ignoreGroup(g.Email) || !s.includeGroup(g.Email) { continue }\<close>.
\<close>

definition syncGroupsSkips :: "config \<Rightarrow> google_group \<Rightarrow> bool" where
  "syncGroupsSkips cfg g = (ignoreGroup cfg (Email g) \<or> \<not> includeGroup cfg (Email g))"

text \<open>
  The first loop of \<^verbatim>\<open>SyncGroupsUsers\<close>, which keeps the groups that \<^verbatim>\<open>ignoreGroup\<close>
  does not reject; the include-list is not consulted there.
\<close>

fun filterGoogleGroups :: "config \<Rightarrow> google_group list \<Rightarrow> google_group list \<Rightarrow> google_group list" where
  "filterGoogleGroups cfg [] filteredGoogleGroups = filteredGoogleGroups"
| "filterGoogleGroups cfg (g # gs) filteredGoogleGroups =
     (if ignoreGroup cfg (Email g) then filterGoogleGroups cfg gs filteredGoogleGroups
      else filterGoogleGroups cfg gs (filteredGoogleGroups @ [g]))"


section \<open>Diff engine\<close>

subsection \<open>\<^verbatim>\<open>getUserOperations\<close>\<close>

text \<open>
  The two lookup tables of \<^verbatim>\<open>getUserOperations\<close>: \<^verbatim>\<open>awsMap\<close> from username to the target
  user (a later user with the same username overwrites an earlier one) and \<^verbatim>\<open>googleMap\<close>,
  the set of source emails as a map to \<^verbatim>\<open>struct{}\<close>.
\<close>

fun awsUserMap :: "aws_user list \<Rightarrow> (string \<rightharpoonup> aws_user) \<Rightarrow> (string \<rightharpoonup> aws_user)" where
  "awsUserMap [] awsMap = awsMap"
| "awsUserMap (awsUser # rest) awsMap = awsUserMap rest (awsMap(Username awsUser \<mapsto> awsUser))"

fun googleUserMap :: "google_user list \<Rightarrow> (string \<rightharpoonup> unit) \<Rightarrow> (string \<rightharpoonup> unit)" where
  "googleUserMap [] googleMap = googleMap"
| "googleUserMap (gUser # rest) googleMap = googleUserMap rest (googleMap(PrimaryEmail gUser \<mapsto> ()))"

text \<open>The comparison that decides between \<^verbatim>\<open>update\<close> and \<^verbatim>\<open>equals\<close>.\<close>

definition userMismatch :: "aws_user \<Rightarrow> google_user \<Rightarrow> bool" where
  "userMismatch awsUser gUser =
     (Active awsUser = Suspended gUser \<or>
      GivenName awsUser \<noteq> G_GivenName gUser \<or>
      FamilyName awsUser \<noteq> G_FamilyName gUser)"

text \<open>
  First loop, over the source users; the accumulator is \<^verbatim>\<open>(add, update, equals)\<close>, each
  extended by \<^verbatim>\<open>append\<close>.
\<close>

fun userOpsGoogleLoop ::
  "(string \<rightharpoonup> aws_user) \<Rightarrow> google_user list \<Rightarrow>
   aws_user list \<times> aws_user list \<times> aws_user list \<Rightarrow>
   aws_user list \<times> aws_user list \<times> aws_user list" where
  "userOpsGoogleLoop awsMap [] acc = acc"
| "userOpsGoogleLoop awsMap (gUser # rest) (add, update, equals) =
     (case awsMap (PrimaryEmail gUser) of
        Some awsUser \<Rightarrow>
          if userMismatch awsUser gUser
          then userOpsGoogleLoop awsMap rest
                 (add,
                  update @ [NewUser (G_GivenName gUser) (G_FamilyName gUser) (PrimaryEmail gUser)
                              (\<not> Suspended gUser)],
                  equals)
          else userOpsGoogleLoop awsMap rest (add, update, equals @ [awsUser])
      | None \<Rightarrow>
          userOpsGoogleLoop awsMap rest
            (add @ [NewUser (G_GivenName gUser) (G_FamilyName gUser) (PrimaryEmail gUser)
                      (\<not> Suspended gUser)],
             update, equals))"

text \<open>Second loop, over the target users; the accumulator is \<^verbatim>\<open>delete\<close>.\<close>

fun userOpsAwsLoop :: "(string \<rightharpoonup> unit) \<Rightarrow> aws_user list \<Rightarrow> aws_user list \<Rightarrow> aws_user list" where
  "userOpsAwsLoop googleMap [] delete = delete"
| "userOpsAwsLoop googleMap (awsUser # rest) delete =
     (case googleMap (Username awsUser) of
        None \<Rightarrow>
          userOpsAwsLoop googleMap rest
            (delete @ [NewUser (GivenName awsUser) (FamilyName awsUser) (Username awsUser)
                         (Active awsUser)])
      | Some _ \<Rightarrow> userOpsAwsLoop googleMap rest delete)"

text \<open>The result is \<^verbatim>\<open>(add, delete, update, equals)\<close>, in the order of the Go signature.\<close>

definition getUserOperations ::
  "aws_user list \<Rightarrow> google_user list \<Rightarrow>
   aws_user list \<times> aws_user list \<times> aws_user list \<times> aws_user list" where
  "getUserOperations awsUsers googleUsers =
     (let awsMap = awsUserMap awsUsers Map.empty;
          googleMap = googleUserMap googleUsers Map.empty;
          (add, update, equals) = userOpsGoogleLoop awsMap googleUsers ([], [], []);
          delete = userOpsAwsLoop googleMap awsUsers []
      in (add, delete, update, equals))"

subsection \<open>\<^verbatim>\<open>getGroupOperations\<close>\<close>

fun awsGroupMap :: "aws_group list \<Rightarrow> (string \<rightharpoonup> aws_group) \<Rightarrow> (string \<rightharpoonup> aws_group)" where
  "awsGroupMap [] awsMap = awsMap"
| "awsGroupMap (awsGroup # rest) awsMap =
     awsGroupMap rest (awsMap(DisplayName awsGroup \<mapsto> awsGroup))"

fun googleGroupMap :: "google_group list \<Rightarrow> (string \<rightharpoonup> unit) \<Rightarrow> (string \<rightharpoonup> unit)" where
  "googleGroupMap [] googleMap = googleMap"
| "googleGroupMap (gGroup # rest) googleMap = googleGroupMap rest (googleMap(Name gGroup \<mapsto> ()))"

fun groupOpsGoogleLoop ::
  "(string \<rightharpoonup> aws_group) \<Rightarrow> google_group list \<Rightarrow> aws_group list \<times> aws_group list \<Rightarrow>
   aws_group list \<times> aws_group list" where
  "groupOpsGoogleLoop awsMap [] acc = acc"
| "groupOpsGoogleLoop awsMap (gGroup # rest) (add, equals) =
     (case awsMap (Name gGroup) of
        Some awsGroup \<Rightarrow> groupOpsGoogleLoop awsMap rest (add, equals @ [awsGroup])
      | None \<Rightarrow> groupOpsGoogleLoop awsMap rest (add @ [NewGroup (Name gGroup)], equals))"

fun groupOpsAwsLoop :: "(string \<rightharpoonup> unit) \<Rightarrow> aws_group list \<Rightarrow> aws_group list \<Rightarrow> aws_group list" where
  "groupOpsAwsLoop googleMap [] delete = delete"
| "groupOpsAwsLoop googleMap (awsGroup # rest) delete =
     (case googleMap (DisplayName awsGroup) of
        None \<Rightarrow> groupOpsAwsLoop googleMap rest (delete @ [NewGroup (DisplayName awsGroup)])
      | Some _ \<Rightarrow> groupOpsAwsLoop googleMap rest delete)"

text \<open>The result is \<^verbatim>\<open>(add, delete, equals)\<close>.\<close>

definition getGroupOperations ::
  "aws_group list \<Rightarrow> google_group list \<Rightarrow> aws_group list \<times> aws_group list \<times> aws_group list" where
  "getGroupOperations awsGroups googleGroups =
     (let awsMap = awsGroupMap awsGroups Map.empty;
          googleMap = googleGroupMap googleGroups Map.empty;
          (add, equals) = groupOpsGoogleLoop awsMap googleGroups ([], []);
          delete = groupOpsAwsLoop googleMap awsGroups []
      in (add, delete, equals))"

subsection \<open>\<^verbatim>\<open>getGroupUsersOperations\<close>\<close>

text \<open>
  The two arguments are Go maps from a group name to a member list. A Go map is modelled as an
  association list with pairwise distinct keys, listed in the order in which \<^verbatim>\<open>range\<close> visits
  it; \<^verbatim>\<open>m[k]\<close> is \<^term>\<open>map_of\<close> and \<^verbatim>\<open>m[k] = v\<close> is \<^term>\<open>AList.update\<close>. Reading an absent
  key yields the zero value, here the empty list.
\<close>

type_synonym 'v gomap = "(string \<times> 'v) list"

definition lookupList :: "'v list gomap \<Rightarrow> string \<Rightarrow> 'v list" where
  "lookupList m k = (case map_of m k of None \<Rightarrow> [] | Some vs \<Rightarrow> vs)"

text \<open>\<^verbatim>\<open>mbG\<close>: for each source group the set of its members' primary emails.\<close>

fun memberEmails :: "google_user list \<Rightarrow> (string \<rightharpoonup> unit) \<Rightarrow> (string \<rightharpoonup> unit)" where
  "memberEmails [] s = s"
| "memberEmails (gUser # rest) s = memberEmails rest (s(PrimaryEmail gUser \<mapsto> ()))"

fun buildMbG ::
  "google_user list gomap \<Rightarrow> (string \<rightharpoonup> (string \<rightharpoonup> unit)) \<Rightarrow> (string \<rightharpoonup> (string \<rightharpoonup> unit))" where
  "buildMbG [] mbG = mbG"
| "buildMbG ((gGroupName, gGroupUsers) # rest) mbG =
     buildMbG rest (mbG(gGroupName \<mapsto> memberEmails gGroupUsers Map.empty))"

text \<open>\<^verbatim>\<open>mbG[awsGroupName][awsUser.Username]\<close>: a lookup in an absent inner map finds nothing.\<close>

definition mbGFound :: "(string \<rightharpoonup> (string \<rightharpoonup> unit)) \<Rightarrow> string \<Rightarrow> string \<Rightarrow> bool" where
  "mbGFound mbG groupName username =
     (case mbG groupName of None \<Rightarrow> False
      | Some s \<Rightarrow> (case s username of None \<Rightarrow> False | Some _ \<Rightarrow> True))"

text \<open>Inner loop over the target members of one group; the accumulator is \<^verbatim>\<open>(delete, equals)\<close>.\<close>

fun groupUsersInner ::
  "(string \<rightharpoonup> (string \<rightharpoonup> unit)) \<Rightarrow> string \<Rightarrow> aws_user list \<Rightarrow>
   aws_user list gomap \<times> aws_user list gomap \<Rightarrow> aws_user list gomap \<times> aws_user list gomap" where
  "groupUsersInner mbG awsGroupName [] acc = acc"
| "groupUsersInner mbG awsGroupName (awsUser # rest) (delete, equals) =
     (if mbGFound mbG awsGroupName (Username awsUser)
      then groupUsersInner mbG awsGroupName rest
             (delete,
              AList.update awsGroupName (lookupList equals awsGroupName @ [awsUser]) equals)
      else groupUsersInner mbG awsGroupName rest
             (AList.update awsGroupName (lookupList delete awsGroupName @ [awsUser]) delete,
              equals))"

fun groupUsersOuter ::
  "(string \<rightharpoonup> (string \<rightharpoonup> unit)) \<Rightarrow> aws_user list gomap \<Rightarrow>
   aws_user list gomap \<times> aws_user list gomap \<Rightarrow> aws_user list gomap \<times> aws_user list gomap" where
  "groupUsersOuter mbG [] acc = acc"
| "groupUsersOuter mbG ((awsGroupName, awsGroupUsers) # rest) acc =
     groupUsersOuter mbG rest (groupUsersInner mbG awsGroupName awsGroupUsers acc)"

text \<open>The result is \<^verbatim>\<open>(delete, equals)\<close>.\<close>

definition getGroupUsersOperations ::
  "google_user list gomap \<Rightarrow> aws_user list gomap \<Rightarrow> aws_user list gomap \<times> aws_user list gomap" where
  "getGroupUsersOperations gGroupsUsers awsGroupsUsers =
     groupUsersOuter (buildMbG gGroupsUsers Map.empty) awsGroupsUsers ([], [])"

section \<open>Collaborators, errors and the run state\<close>

text \<open>
  The errors that \<^verbatim>\<open>sync.go\<close> tells apart: the two sentinel values \<^verbatim>\<open>aws.ErrUserNotFound\<close>
  and \<^verbatim>\<open>aws.ErrGroupNotFound\<close>, \<^verbatim>\<open>aws.ErrHttpNotOK\<close> with its status code, and any other
  error. A Go call returning \<^verbatim>\<open>(value, error)\<close> is a sum: \<^term>\<open>Inl\<close> the error, \<^term>\<open>Inr\<close>
  the value; a client that returns both a value and an error is outside the model.
\<close>

datatype error = ErrUserNotFound | ErrGroupNotFound | ErrHttpNotOK int | ErrOther string

text \<open>
  The two collaborators are interfaces whose implementations are not in \<^verbatim>\<open>sync.go\<close>. Each
  is a record of operations over a state \<open>'w\<close> that stands for everything the collaborators
  hold (the directory, the store, the network): an operation takes the state and returns its
  result and the state after the call. The theorems hold for every such pair of clients.
\<close>

record 'w google_client =
  google_GetDeletedUsers :: "'w \<Rightarrow> (error + google_user list) \<times> 'w"
  google_GetUsers :: "string \<Rightarrow> 'w \<Rightarrow> (error + google_user list) \<times> 'w"
  google_GetGroups :: "string \<Rightarrow> 'w \<Rightarrow> (error + google_group list) \<times> 'w"
  google_GetGroupMembers :: "google_group \<Rightarrow> 'w \<Rightarrow> (error + google_member list) \<times> 'w"

record 'w aws_client =
  aws_FindUserByEmail :: "string \<Rightarrow> 'w \<Rightarrow> (error + aws_user) \<times> 'w"
  aws_CreateUser :: "aws_user \<Rightarrow> 'w \<Rightarrow> (error + aws_user) \<times> 'w"
  aws_UpdateUser :: "aws_user \<Rightarrow> 'w \<Rightarrow> (error + aws_user) \<times> 'w"
  aws_DeleteUser :: "aws_user \<Rightarrow> 'w \<Rightarrow> (error + unit) \<times> 'w"
  aws_GetUsers :: "'w \<Rightarrow> (error + aws_user list) \<times> 'w"
  aws_FindGroupByDisplayName :: "string \<Rightarrow> 'w \<Rightarrow> (error + aws_group) \<times> 'w"
  aws_CreateGroup :: "aws_group \<Rightarrow> 'w \<Rightarrow> (error + aws_group) \<times> 'w"
  aws_DeleteGroup :: "aws_group \<Rightarrow> 'w \<Rightarrow> (error + unit) \<times> 'w"
  aws_GetGroups :: "'w \<Rightarrow> (error + aws_group list) \<times> 'w"
  aws_IsUserInGroup :: "aws_user \<Rightarrow> aws_group \<Rightarrow> 'w \<Rightarrow> (error + bool) \<times> 'w"
  aws_AddUserToGroup :: "aws_user \<Rightarrow> aws_group \<Rightarrow> 'w \<Rightarrow> (error + unit) \<times> 'w"
  aws_RemoveUserFromGroup :: "aws_user \<Rightarrow> aws_group \<Rightarrow> 'w \<Rightarrow> (error + unit) \<times> 'w"

text \<open>
  The struct \<^verbatim>\<open>syncGSuite\<close>, without its field \<^verbatim>\<open>users\<close>: that map is written during a run
  and is part of the run state below.
\<close>

record 'w syncGSuite =
  s_aws :: "'w aws_client"
  s_google :: "'w google_client"
  s_cfg :: config

text \<open>
  The run state. Besides the collaborators' state and \<^verbatim>\<open>s.users\<close> it records every
  collaborator call made so far, in order, with the error it returned if any. The trace is a
  ghost of the model: the Go code has no such list, it is what an observer of the two
  interfaces would write down.
\<close>

datatype call =
    GetDeletedUsers
  | Google_GetUsers string
  | Google_GetGroups string
  | GetGroupMembers google_group
  | FindUserByEmail string
  | CreateUser aws_user
  | UpdateUser aws_user
  | DeleteUser aws_user
  | Aws_GetUsers
  | FindGroupByDisplayName string
  | CreateGroup aws_group
  | DeleteGroup aws_group
  | Aws_GetGroups
  | IsUserInGroup aws_user aws_group
  | AddUserToGroup aws_user aws_group
  | RemoveUserFromGroup aws_user aws_group

record 'w run_state =
  world :: 'w
  calls :: "(call \<times> error option) list"
  s_users :: "aws_user gomap"

text \<open>
  A piece of Go code that may end the surrounding function with \<^verbatim>\<open>return err\<close> is a state
  transformer returning a sum. \<open>bindE\<close> is sequencing: an error of the first part ends the
  whole. \<open>forEach\<close> is a \<^verbatim>\<open>for ... range\<close> loop over a slice whose body may return the
  error; \<open>forEachAcc\<close> is such a loop that also builds a value. \<^verbatim>\<open>continue\<close> is a body that
  returns normally.
\<close>

type_synonym ('w, 'a) prog = "'w run_state \<Rightarrow> (error + 'a) \<times> 'w run_state"

definition returnE :: "'a \<Rightarrow> ('w, 'a) prog" where
  "returnE a = (\<lambda>st. (Inr a, st))"

definition bindE :: "('w, 'a) prog \<Rightarrow> ('a \<Rightarrow> ('w, 'b) prog) \<Rightarrow> ('w, 'b) prog" where
  "bindE m f = (\<lambda>st. case m st of (Inl err, st') \<Rightarrow> (Inl err, st') | (Inr a, st') \<Rightarrow> f a st')"

primrec forEach :: "'a list \<Rightarrow> ('a \<Rightarrow> ('w, unit) prog) \<Rightarrow> ('w, unit) prog" where
  "forEach [] body = returnE ()"
| "forEach (x # xs) body = bindE (body x) (\<lambda>_. forEach xs body)"

primrec forEachAcc :: "'a list \<Rightarrow> 'b \<Rightarrow> ('a \<Rightarrow> 'b \<Rightarrow> ('w, 'b) prog) \<Rightarrow> ('w, 'b) prog" where
  "forEachAcc [] acc body = returnE acc"
| "forEachAcc (x # xs) acc body = bindE (body x acc) (\<lambda>acc'. forEachAcc xs acc' body)"

text \<open>One collaborator call: run the operation on the collaborators' state and record it.\<close>

definition outcome :: "error + 'a \<Rightarrow> error option" where
  "outcome r = (case r of Inl err \<Rightarrow> Some err | Inr _ \<Rightarrow> None)"

definition invoke :: "call \<Rightarrow> ('w \<Rightarrow> (error + 'a) \<times> 'w) \<Rightarrow> ('w, 'a) prog" where
  "invoke c f = (\<lambda>st. case f (world st) of
                    (r, w') \<Rightarrow> (r, st\<lparr>world := w', calls := calls st @ [(c, outcome r)]\<rparr>))"

text \<open>The sixteen operations as \<^verbatim>\<open>sync.go\<close> calls them on \<^verbatim>\<open>s.google\<close> and \<^verbatim>\<open>s.aws\<close>.\<close>

definition call_GetDeletedUsers :: "'w syncGSuite \<Rightarrow> ('w, google_user list) prog" where
  "call_GetDeletedUsers s = invoke GetDeletedUsers (google_GetDeletedUsers (s_google s))"

definition call_Google_GetUsers :: "'w syncGSuite \<Rightarrow> string \<Rightarrow> ('w, google_user list) prog" where
  "call_Google_GetUsers s query = invoke (Google_GetUsers query) (google_GetUsers (s_google s) query)"

definition call_Google_GetGroups :: "'w syncGSuite \<Rightarrow> string \<Rightarrow> ('w, google_group list) prog" where
  "call_Google_GetGroups s query = invoke (Google_GetGroups query) (google_GetGroups (s_google s) query)"

definition call_GetGroupMembers :: "'w syncGSuite \<Rightarrow> google_group \<Rightarrow> ('w, google_member list) prog" where
  "call_GetGroupMembers s g = invoke (GetGroupMembers g) (google_GetGroupMembers (s_google s) g)"

definition call_FindUserByEmail :: "'w syncGSuite \<Rightarrow> string \<Rightarrow> ('w, aws_user) prog" where
  "call_FindUserByEmail s email = invoke (FindUserByEmail email) (aws_FindUserByEmail (s_aws s) email)"

definition call_CreateUser :: "'w syncGSuite \<Rightarrow> aws_user \<Rightarrow> ('w, aws_user) prog" where
  "call_CreateUser s u = invoke (CreateUser u) (aws_CreateUser (s_aws s) u)"

definition call_UpdateUser :: "'w syncGSuite \<Rightarrow> aws_user \<Rightarrow> ('w, aws_user) prog" where
  "call_UpdateUser s u = invoke (UpdateUser u) (aws_UpdateUser (s_aws s) u)"

definition call_DeleteUser :: "'w syncGSuite \<Rightarrow> aws_user \<Rightarrow> ('w, unit) prog" where
  "call_DeleteUser s u = invoke (DeleteUser u) (aws_DeleteUser (s_aws s) u)"

definition call_Aws_GetUsers :: "'w syncGSuite \<Rightarrow> ('w, aws_user list) prog" where
  "call_Aws_GetUsers s = invoke Aws_GetUsers (aws_GetUsers (s_aws s))"

definition call_FindGroupByDisplayName :: "'w syncGSuite \<Rightarrow> string \<Rightarrow> ('w, aws_group) prog" where
  "call_FindGroupByDisplayName s name =
     invoke (FindGroupByDisplayName name) (aws_FindGroupByDisplayName (s_aws s) name)"

definition call_CreateGroup :: "'w syncGSuite \<Rightarrow> aws_group \<Rightarrow> ('w, aws_group) prog" where
  "call_CreateGroup s g = invoke (CreateGroup g) (aws_CreateGroup (s_aws s) g)"

definition call_DeleteGroup :: "'w syncGSuite \<Rightarrow> aws_group \<Rightarrow> ('w, unit) prog" where
  "call_DeleteGroup s g = invoke (DeleteGroup g) (aws_DeleteGroup (s_aws s) g)"

definition call_Aws_GetGroups :: "'w syncGSuite \<Rightarrow> ('w, aws_group list) prog" where
  "call_Aws_GetGroups s = invoke Aws_GetGroups (aws_GetGroups (s_aws s))"

definition call_IsUserInGroup :: "'w syncGSuite \<Rightarrow> aws_user \<Rightarrow> aws_group \<Rightarrow> ('w, bool) prog" where
  "call_IsUserInGroup s u g = invoke (IsUserInGroup u g) (aws_IsUserInGroup (s_aws s) u g)"

definition call_AddUserToGroup :: "'w syncGSuite \<Rightarrow> aws_user \<Rightarrow> aws_group \<Rightarrow> ('w, unit) prog" where
  "call_AddUserToGroup s u g = invoke (AddUserToGroup u g) (aws_AddUserToGroup (s_aws s) u g)"

definition call_RemoveUserFromGroup :: "'w syncGSuite \<Rightarrow> aws_user \<Rightarrow> aws_group \<Rightarrow> ('w, unit) prog" where
  "call_RemoveUserFromGroup s u g =
     invoke (RemoveUserFromGroup u g) (aws_RemoveUserFromGroup (s_aws s) u g)"

section \<open>Snapshot collection\<close>

text \<open>
  \<^verbatim>\<open>getGoogleGroupsAndUsers\<close>. The body of the inner loop, over the members of one group:
  ignored users and addresses of type \<^verbatim>\<open>GROUP\<close> are skipped; the member is resolved with the
  query \<^verbatim>\<open>email:<address>\<close>; an empty answer is skipped; otherwise the first user of the
  answer is appended to \<^verbatim>\<open>membersUsers\<close> and stored in \<^verbatim>\<open>gUniqUsers\<close> under the member's
  address \<^verbatim>\<open>m.Email\<close>, unless that key is already present.
\<close>

definition memberStep ::
  "'w syncGSuite \<Rightarrow> google_member \<Rightarrow> google_user list \<times> google_user gomap \<Rightarrow>
   ('w, google_user list \<times> google_user gomap) prog" where
  "memberStep s m acc =
     (case acc of (membersUsers, gUniqUsers) \<Rightarrow>
        if ignoreUser (s_cfg s) (M_Email m) then returnE (membersUsers, gUniqUsers)
        else if M_Type m = ''GROUP'' then returnE (membersUsers, gUniqUsers)
        else bindE (call_Google_GetUsers s (''email:'' @ M_Email m))
               (\<lambda>u. case u of
                       [] \<Rightarrow> returnE (membersUsers, gUniqUsers)
                     | u0 # _ \<Rightarrow>
                         returnE (membersUsers @ [u0],
                                  case map_of gUniqUsers (M_Email m) of
                                    None \<Rightarrow> AList.update (M_Email m) u0 gUniqUsers
                                  | Some _ \<Rightarrow> gUniqUsers)))"

text \<open>
  The body of the outer loop, over the groups: skip an ignored group, fetch the members, run
  the inner loop and store its list under \<^verbatim>\<open>g.Name\<close>.
\<close>

definition groupStep ::
  "'w syncGSuite \<Rightarrow> google_group \<Rightarrow> google_user list gomap \<times> google_user gomap \<Rightarrow>
   ('w, google_user list gomap \<times> google_user gomap) prog" where
  "groupStep s g acc =
     (case acc of (gGroupsUsers, gUniqUsers) \<Rightarrow>
        if ignoreGroup (s_cfg s) (Email g) then returnE (gGroupsUsers, gUniqUsers)
        else bindE (call_GetGroupMembers s g)
               (\<lambda>groupMembers.
                  bindE (forEachAcc groupMembers ([], gUniqUsers) (memberStep s))
                    (\<lambda>(membersUsers, gUniqUsers').
                       returnE (AList.update (Name g) membersUsers gGroupsUsers, gUniqUsers'))))"

text \<open>
  The final loop copies the values of \<^verbatim>\<open>gUniqUsers\<close> into the slice \<^verbatim>\<open>gUsers\<close>. Go visits a
  map in an order it does not specify; \<open>rangeOrder\<close> is the order of that visit. The result is
  \<^verbatim>\<open>(gUsers, gGroupsUsers)\<close>.
\<close>

definition getGoogleGroupsAndUsers ::
  "'w syncGSuite \<Rightarrow> (google_user gomap \<Rightarrow> google_user gomap) \<Rightarrow> google_group list \<Rightarrow>
   ('w, google_user list \<times> google_user list gomap) prog" where
  "getGoogleGroupsAndUsers s rangeOrder googleGroups =
     bindE (forEachAcc googleGroups ([], []) (groupStep s))
       (\<lambda>(gGroupsUsers, gUniqUsers).
          returnE (map snd (rangeOrder gUniqUsers), gGroupsUsers))"

text \<open>
  \<^verbatim>\<open>getAWSGroupsAndUsers\<close>: for every target group, the target users for which
  \<^verbatim>\<open>IsUserInGroup\<close> answers true.
\<close>

definition getAWSGroupsAndUsers ::
  "'w syncGSuite \<Rightarrow> aws_group list \<Rightarrow> aws_user list \<Rightarrow> ('w, aws_user list gomap) prog" where
  "getAWSGroupsAndUsers s awsGroups awsUsers =
     forEachAcc awsGroups []
       (\<lambda>awsGroup awsGroupsUsers.
          bindE (forEachAcc awsUsers []
                   (\<lambda>user users.
                      bindE (call_IsUserInGroup s user awsGroup)
                        (\<lambda>found. returnE (if found then users @ [user] else users))))
            (\<lambda>users. returnE (AList.update (DisplayName awsGroup) users awsGroupsUsers)))"

section \<open>Apply pipeline\<close>

text \<open>
  \<^verbatim>\<open>SyncGroupsUsers\<close>, phase by phase. The test
  \<^verbatim>\<open>errors.As(err, &errHttp) && errHttp.StatusCode == 409\<close>:
\<close>

definition is409 :: "error \<Rightarrow> bool" where
  "is409 err = (case err of ErrHttpNotOK statusCode \<Rightarrow> statusCode = 409 | _ \<Rightarrow> False)"

text \<open>Step 1, lines 396 to 412: look each user of \<^verbatim>\<open>delAWSUsers\<close> up by email and delete the record found.\<close>

definition deleteUsers :: "'w syncGSuite \<Rightarrow> aws_user list \<Rightarrow> ('w, unit) prog" where
  "deleteUsers s delAWSUsers =
     forEach delAWSUsers
       (\<lambda>awsUser. bindE (call_FindUserByEmail s (Username awsUser))
                     (\<lambda>awsUserFull. call_DeleteUser s awsUserFull))"

text \<open>
  Step 2, lines 413 to 430: look each user of \<^verbatim>\<open>updateAWSUsers\<close> up by email and pass the
  record found, \<^verbatim>\<open>awsUserFull\<close>, to \<^verbatim>\<open>UpdateUser\<close>.
\<close>

definition updateUsers :: "'w syncGSuite \<Rightarrow> aws_user list \<Rightarrow> ('w, unit) prog" where
  "updateUsers s updateAWSUsers =
     forEach updateAWSUsers
       (\<lambda>awsUser. bindE (call_FindUserByEmail s (Username awsUser))
                     (\<lambda>awsUserFull. bindE (call_UpdateUser s awsUserFull) (\<lambda>_. returnE ())))"

text \<open>
  Step 3, lines 431 to 447: create each user of \<^verbatim>\<open>addAWSUsers\<close>; on a 409 the loop goes on
  with the next user, any other error is returned.
\<close>

definition createUserStep :: "'w syncGSuite \<Rightarrow> aws_user \<Rightarrow> ('w, unit) prog" where
  "createUserStep s awsUser =
     (\<lambda>st. case call_CreateUser s awsUser st of
              (Inl err, st') \<Rightarrow> if is409 err then (Inr (), st') else (Inl err, st')
            | (Inr _, st') \<Rightarrow> (Inr (), st'))"

definition addUsers :: "'w syncGSuite \<Rightarrow> aws_user list \<Rightarrow> ('w, unit) prog" where
  "addUsers s addAWSUsers = forEach addAWSUsers (createUserStep s)"

text \<open>
  Step 4, lines 448 to 482: create each group of \<^verbatim>\<open>addAWSGroups\<close>, then look up every source
  member of that group by email and add it to \<^verbatim>\<open>awsGroup\<close>.
\<close>

definition addGroups ::
  "'w syncGSuite \<Rightarrow> google_user list gomap \<Rightarrow> aws_group list \<Rightarrow> ('w, unit) prog" where
  "addGroups s googleGroupsUsers addAWSGroups =
     forEach addAWSGroups
       (\<lambda>awsGroup.
          bindE (call_CreateGroup s awsGroup)
            (\<lambda>_. forEach (lookupList googleGroupsUsers (DisplayName awsGroup))
                    (\<lambda>googleUser.
                       bindE (call_FindUserByEmail s (PrimaryEmail googleUser))
                         (\<lambda>awsUserFull. call_AddUserToGroup s awsUserFull awsGroup))))"

text \<open>
  Step 5, lines 483 to 537: for each group of \<^verbatim>\<open>equalAWSGroups\<close>, add the source members
  that \<^verbatim>\<open>IsUserInGroup\<close> does not find, then remove the users that
  \<^verbatim>\<open>getGroupUsersOperations\<close> listed under \<^verbatim>\<open>delete\<close> for the group.
\<close>

definition reconcileGroups ::
  "'w syncGSuite \<Rightarrow> google_user list gomap \<Rightarrow> aws_user list gomap \<Rightarrow> aws_group list \<Rightarrow>
   ('w, unit) prog" where
  "reconcileGroups s googleGroupsUsers deleteUsersFromGroup equalAWSGroups =
     forEach equalAWSGroups
       (\<lambda>awsGroup.
          bindE (forEach (lookupList googleGroupsUsers (DisplayName awsGroup))
                   (\<lambda>googleUser.
                      bindE (call_FindUserByEmail s (PrimaryEmail googleUser))
                        (\<lambda>awsUserFull.
                           bindE (call_IsUserInGroup s awsUserFull awsGroup)
                             (\<lambda>b. if \<not> b then call_AddUserToGroup s awsUserFull awsGroup
                                   else returnE ()))))
            (\<lambda>_. forEach (lookupList deleteUsersFromGroup (DisplayName awsGroup))
                    (\<lambda>awsUser. call_RemoveUserFromGroup s awsUser awsGroup)))"

text \<open>Step 6, lines 538 to 555: look each group of \<^verbatim>\<open>delAWSGroups\<close> up by name and delete the group found.\<close>

definition deleteGroups :: "'w syncGSuite \<Rightarrow> aws_group list \<Rightarrow> ('w, unit) prog" where
  "deleteGroups s delAWSGroups =
     forEach delAWSGroups
       (\<lambda>awsGroup. bindE (call_FindGroupByDisplayName s (DisplayName awsGroup))
                      (\<lambda>awsGroupFull. call_DeleteGroup s awsGroupFull))"

text \<open>
  The whole function: fetch the source groups, drop the ignored ones, collect both snapshots,
  compute the operations, and run the six steps in the order of the source text.
\<close>

definition SyncGroupsUsers ::
  "'w syncGSuite \<Rightarrow> (google_user gomap \<Rightarrow> google_user gomap) \<Rightarrow> string \<Rightarrow> ('w, unit) prog" where
  "SyncGroupsUsers s rangeOrder query =
     bindE (call_Google_GetGroups s query) (\<lambda>googleGroups0.
     let googleGroups = filterGoogleGroups (s_cfg s) googleGroups0 [] in
     bindE (getGoogleGroupsAndUsers s rangeOrder googleGroups) (\<lambda>(googleUsers, googleGroupsUsers).
     bindE (call_Aws_GetGroups s) (\<lambda>awsGroups.
     bindE (call_Aws_GetUsers s) (\<lambda>awsUsers.
     bindE (getAWSGroupsAndUsers s awsGroups awsUsers) (\<lambda>awsGroupsUsers.
     case getUserOperations awsUsers googleUsers of
       (addAWSUsers, delAWSUsers, updateAWSUsers, _) \<Rightarrow>
     case getGroupOperations awsGroups googleGroups of
       (addAWSGroups, delAWSGroups, equalAWSGroups) \<Rightarrow>
     bindE (deleteUsers s delAWSUsers) (\<lambda>_.
     bindE (updateUsers s updateAWSUsers) (\<lambda>_.
     bindE (addUsers s addAWSUsers) (\<lambda>_.
     bindE (addGroups s googleGroupsUsers addAWSGroups) (\<lambda>_.
     case getGroupUsersOperations googleGroupsUsers awsGroupsUsers of
       (deleteUsersFromGroup, _) \<Rightarrow>
     bindE (reconcileGroups s googleGroupsUsers deleteUsersFromGroup equalAWSGroups) (\<lambda>_.
     deleteGroups s delAWSGroups))))))))))"

section \<open>Alternate mode\<close>

text \<open>
  \<^verbatim>\<open>SyncUsers\<close>. The body of its first loop, over the users deleted in the source: a lookup
  error other than \<^verbatim>\<open>ErrUserNotFound\<close> is returned, \<^verbatim>\<open>ErrUserNotFound\<close> skips the user,
  and a user found is deleted.
\<close>

definition deletedUserStep :: "'w syncGSuite \<Rightarrow> google_user \<Rightarrow> ('w, unit) prog" where
  "deletedUserStep s u =
     (\<lambda>st. case call_FindUserByEmail s (PrimaryEmail u) st of
              (Inl err, st') \<Rightarrow> if err \<noteq> ErrUserNotFound then (Inl err, st') else (Inr (), st')
            | (Inr uu, st') \<Rightarrow> call_DeleteUser s uu st')"

text \<open>\<^verbatim>\<open>s.users[uu.Username] = uu\<close>.\<close>

definition setUser :: "aws_user \<Rightarrow> ('w, unit) prog" where
  "setUser uu = (\<lambda>st. (Inr (), st\<lparr>s_users := AList.update (Username uu) uu (s_users st)\<rparr>))"

text \<open>
  The body of the second loop, over the active source users. The error of the lookup is
  dropped (\<^verbatim>\<open>uu, _ := ...\<close>) and only \<^verbatim>\<open>uu != nil\<close> is tested. A user found is recorded and
  updated only if \<^verbatim>\<open>uu.Active == u.Suspended\<close>; a user not found is created and recorded.
\<close>

definition syncUserStep :: "'w syncGSuite \<Rightarrow> google_user \<Rightarrow> ('w, unit) prog" where
  "syncUserStep s u =
     (if ignoreUser (s_cfg s) (PrimaryEmail u) then returnE ()
      else (\<lambda>st. case call_FindUserByEmail s (PrimaryEmail u) st of
                    (Inr uu, st') \<Rightarrow>
                      bindE (setUser uu)
                        (\<lambda>_. if Active uu = Suspended u
                              then bindE (call_UpdateUser s
                                            (UpdateUserRecord (ID uu) (G_GivenName u) (G_FamilyName u)
                                               (PrimaryEmail u) (\<not> Suspended u)))
                                     (\<lambda>_. returnE ())
                              else returnE ()) st'
                  | (Inl _, st') \<Rightarrow>
                      bindE (call_CreateUser s
                               (NewUser (G_GivenName u) (G_FamilyName u) (PrimaryEmail u)
                                  (\<not> Suspended u)))
                        (\<lambda>uu. setUser uu) st'))"

text \<open>The whole function.\<close>

definition SyncUsers :: "'w syncGSuite \<Rightarrow> string \<Rightarrow> ('w, unit) prog" where
  "SyncUsers s query =
     bindE (call_GetDeletedUsers s) (\<lambda>deletedUsers.
     bindE (forEach deletedUsers (deletedUserStep s)) (\<lambda>_.
     bindE (call_Google_GetUsers s query) (\<lambda>googleUsers.
     forEach googleUsers (syncUserStep s))))"

text \<open>
  \<^verbatim>\<open>SyncGroups\<close>. Its group loop first finds the target group by the source group's email
  or creates it. The map \<^verbatim>\<open>correlatedGroups\<close> is written and never read; it is left out.
\<close>

definition findOrCreateGroup :: "'w syncGSuite \<Rightarrow> google_group \<Rightarrow> ('w, aws_group) prog" where
  "findOrCreateGroup s g =
     (\<lambda>st. case call_FindGroupByDisplayName s (Email g) st of
              (Inl err, st') \<Rightarrow>
                if err \<noteq> ErrGroupNotFound then (Inl err, st')
                else call_CreateGroup s (NewGroup (Email g)) st'
            | (Inr gg, st') \<Rightarrow> (Inr gg, st'))"

text \<open>\<^verbatim>\<open>memberList\<close>: the members whose address is a key of \<^verbatim>\<open>s.users\<close>, keyed by address.\<close>

fun buildMemberList ::
  "aws_user gomap \<Rightarrow> google_member list \<Rightarrow> google_member gomap \<Rightarrow> google_member gomap" where
  "buildMemberList us [] memberList = memberList"
| "buildMemberList us (m # rest) memberList =
     (case map_of us (M_Email m) of
        Some _ \<Rightarrow> buildMemberList us rest (AList.update (M_Email m) m memberList)
      | None \<Rightarrow> buildMemberList us rest memberList)"

text \<open>The body of the loop over \<^verbatim>\<open>s.users\<close>: add a listed member that is missing, remove a stale one.\<close>

definition groupUserStep ::
  "'w syncGSuite \<Rightarrow> aws_group \<Rightarrow> google_member gomap \<Rightarrow> aws_user \<Rightarrow> ('w, unit) prog" where
  "groupUserStep s grp memberList u =
     bindE (call_IsUserInGroup s u grp)
       (\<lambda>b. case map_of memberList (Username u) of
               Some _ \<Rightarrow> if \<not> b then call_AddUserToGroup s u grp else returnE ()
             | None \<Rightarrow> if b then call_RemoveUserFromGroup s u grp else returnE ())"

text \<open>
  The body of the group loop. \<open>rangeOrder\<close> is the order in which Go visits the map
  \<^verbatim>\<open>s.users\<close>.
\<close>

definition syncGroupStep ::
  "'w syncGSuite \<Rightarrow> (aws_user gomap \<Rightarrow> aws_user gomap) \<Rightarrow> google_group \<Rightarrow> ('w, unit) prog" where
  "syncGroupStep s rangeOrder g =
     (if syncGroupsSkips (s_cfg s) g then returnE ()
      else bindE (findOrCreateGroup s g) (\<lambda>grp.
           bindE (call_GetGroupMembers s g) (\<lambda>groupMembers.
           (\<lambda>st. forEach (map snd (rangeOrder (s_users st)))
                    (groupUserStep s grp (buildMemberList (s_users st) groupMembers [])) st))))"

text \<open>The whole function.\<close>

definition SyncGroups ::
  "'w syncGSuite \<Rightarrow> (aws_user gomap \<Rightarrow> aws_user gomap) \<Rightarrow> string \<Rightarrow> ('w, unit) prog" where
  "SyncGroups s rangeOrder query =
     bindE (call_Google_GetGroups s query) (\<lambda>googleGroups.
     forEach googleGroups (syncGroupStep s rangeOrder))"

section \<open>In-memory collaborators\<close>

text \<open>
  A store and a directory held in memory, to run the functions on concrete inputs. The store
  keeps users, groups and membership pairs (group name, username); creating a user whose
  username exists answers 409, looking up an absent user or group answers the matching
  not-found error. The directory answers every request from fixed tables.
\<close>

record store =
  st_users :: "aws_user list"
  st_groups :: "aws_group list"
  st_members :: "(string \<times> string) list"

record directory =
  d_groups :: "google_group list"
  d_members :: "(string \<times> google_member list) list"
  d_users :: "(string \<times> google_user list) list"
  d_deleted :: "google_user list"

definition memGoogle :: "directory \<Rightarrow> 'w google_client" where
  "memGoogle d =
     \<lparr>google_GetDeletedUsers = (\<lambda>w. (Inr (d_deleted d), w)),
      google_GetUsers = (\<lambda>query w. (Inr (lookupList (d_users d) query), w)),
      google_GetGroups = (\<lambda>query w. (Inr (d_groups d), w)),
      google_GetGroupMembers = (\<lambda>g w. (Inr (lookupList (d_members d) (Email g)), w))\<rparr>"

definition memAws :: "store aws_client" where
  "memAws =
     \<lparr>aws_FindUserByEmail = (\<lambda>email w.
        (case find (\<lambda>u. Username u = email) (st_users w) of
           None \<Rightarrow> Inl ErrUserNotFound | Some u \<Rightarrow> Inr u, w)),
      aws_CreateUser = (\<lambda>u w.
        if Username u \<in> set (map Username (st_users w)) then (Inl (ErrHttpNotOK 409), w)
        else (Inr (u\<lparr>ID := ''id:'' @ Username u\<rparr>),
              w\<lparr>st_users := st_users w @ [u\<lparr>ID := ''id:'' @ Username u\<rparr>]\<rparr>)),
      aws_UpdateUser = (\<lambda>u w.
        (Inr u, w\<lparr>st_users := map (\<lambda>x. if ID x = ID u then u else x) (st_users w)\<rparr>)),
      aws_DeleteUser = (\<lambda>u w.
        (Inr (), w\<lparr>st_users := filter (\<lambda>x. ID x \<noteq> ID u) (st_users w)\<rparr>)),
      aws_GetUsers = (\<lambda>w. (Inr (st_users w), w)),
      aws_FindGroupByDisplayName = (\<lambda>name w.
        (case find (\<lambda>g. DisplayName g = name) (st_groups w) of
           None \<Rightarrow> Inl ErrGroupNotFound | Some g \<Rightarrow> Inr g, w)),
      aws_CreateGroup = (\<lambda>g w.
        (Inr (g\<lparr>GroupID := ''id:'' @ DisplayName g\<rparr>),
         w\<lparr>st_groups := st_groups w @ [g\<lparr>GroupID := ''id:'' @ DisplayName g\<rparr>]\<rparr>)),
      aws_DeleteGroup = (\<lambda>g w.
        (Inr (), w\<lparr>st_groups := filter (\<lambda>x. DisplayName x \<noteq> DisplayName g) (st_groups w)\<rparr>)),
      aws_GetGroups = (\<lambda>w. (Inr (st_groups w), w)),
      aws_IsUserInGroup = (\<lambda>u g w.
        (Inr ((DisplayName g, Username u) \<in> set (st_members w)), w)),
      aws_AddUserToGroup = (\<lambda>u g w.
        (Inr (), w\<lparr>st_members := st_members w @ [(DisplayName g, Username u)]\<rparr>)),
      aws_RemoveUserFromGroup = (\<lambda>u g w.
        (Inr (), w\<lparr>st_members := filter (\<lambda>p. p \<noteq> (DisplayName g, Username u)) (st_members w)\<rparr>))\<rparr>"

text \<open>A configuration with empty lists, and the state in which a run starts.\<close>

definition noFilter :: config where
  "noFilter = \<lparr>IgnoreUsers = [], IgnoreGroups = [], IncludeGroups = []\<rparr>"

definition start :: "'w \<Rightarrow> 'w run_state" where
  "start w = \<lparr>world = w, calls = [], s_users = []\<rparr>"



section \<open>Auxiliary definitions for the statements\<close>

text \<open>
  The record that \<^verbatim>\<open>getUserOperations\<close> builds from a source user (for \<^verbatim>\<open>add\<close> and
  \<^verbatim>\<open>update\<close>) and from a target user (for \<^verbatim>\<open>delete\<close>).
\<close>

definition fromGoogle :: "google_user \<Rightarrow> aws_user" where
  "fromGoogle g = NewUser (G_GivenName g) (G_FamilyName g) (PrimaryEmail g) (\<not> Suspended g)"

definition fromAws :: "aws_user \<Rightarrow> aws_user" where
  "fromAws a = NewUser (GivenName a) (FamilyName a) (Username a) (Active a)"

text \<open>Exactly one of the listed conditions holds.\<close>

definition exactly_one :: "bool list \<Rightarrow> bool" where
  "exactly_one bs = (length (filter (\<lambda>b. b) bs) = 1)"

text \<open>
  The group filter in the words of the specification: a group is excluded if it matches an
  ignore-list entry, or, when an include-list is configured and non-empty, if it matches none
  of its entries. It is compared with the guard of \<^verbatim>\<open>SyncGroups\<close> below.
\<close>

definition spec_groupExcluded :: "config \<Rightarrow> string \<Rightarrow> bool" where
  "spec_groupExcluded cfg email =
     (email \<in> set (IgnoreGroups cfg) \<or>
      (IncludeGroups cfg \<noteq> [] \<and> email \<notin> set (IncludeGroups cfg)))"


text \<open>A small pair of snapshots on which the diff engine is run below.\<close>

definition awsUsersEx :: "aws_user list" where
  "awsUsersEx =
     [\<lparr>ID = ''u1'', Username = ''b@x.com'', GivenName = ''Bo'', FamilyName = ''Ray'', Active = True\<rparr>,
      \<lparr>ID = ''u2'', Username = ''c@x.com'', GivenName = ''Cy'', FamilyName = ''Lee'', Active = True\<rparr>,
      \<lparr>ID = ''u3'', Username = ''e@x.com'', GivenName = ''Ed'', FamilyName = ''Poe'', Active = True\<rparr>]"

definition googleUsersEx :: "google_user list" where
  "googleUsersEx =
     [\<lparr>PrimaryEmail = ''a@x.com'', G_GivenName = ''Ann'', G_FamilyName = ''Lee'', Suspended = False\<rparr>,
      \<lparr>PrimaryEmail = ''c@x.com'', G_GivenName = ''Cy'', G_FamilyName = ''Lee'', Suspended = True\<rparr>,
      \<lparr>PrimaryEmail = ''e@x.com'', G_GivenName = ''Ed'', G_FamilyName = ''Poe'', Suspended = False\<rparr>]"

definition awsGroupsEx :: "aws_group list" where
  "awsGroupsEx = [\<lparr>GroupID = ''g1'', DisplayName = ''G''\<rparr>, \<lparr>GroupID = ''g2'', DisplayName = ''H''\<rparr>]"

definition googleGroupsEx :: "google_group list" where
  "googleGroupsEx = [\<lparr>Email = ''g@x.com'', Name = ''G''\<rparr>, \<lparr>Email = ''k@x.com'', Name = ''K''\<rparr>]"

definition googleMembersEx :: "google_user list gomap" where
  "googleMembersEx =
     [(''G'', [\<lparr>PrimaryEmail = ''a@x.com'', G_GivenName = ''Ann'', G_FamilyName = ''Lee'', Suspended = False\<rparr>,
               \<lparr>PrimaryEmail = ''b@x.com'', G_GivenName = ''Bo'', G_FamilyName = ''Ray'', Suspended = False\<rparr>])]"

definition awsMembersEx :: "aws_user list gomap" where
  "awsMembersEx =
     [(''G'', [\<lparr>ID = ''u1'', Username = ''b@x.com'', GivenName = ''Bo'', FamilyName = ''Ray'', Active = True\<rparr>,
               \<lparr>ID = ''u2'', Username = ''c@x.com'', GivenName = ''Cy'', FamilyName = ''Lee'', Active = True\<rparr>])]"


section \<open>Call traces\<close>


text \<open>
  The one error that \<^verbatim>\<open>SyncGroupsUsers\<close> swallows: a 409 answer to \<^verbatim>\<open>CreateUser\<close>. A
  recorded call went well when it returned no error or its error was swallowed.
\<close>

definition swallowed :: "call \<times> error option \<Rightarrow> bool" where
  "swallowed ev = (case ev of (CreateUser u, Some err) \<Rightarrow> is409 err | _ \<Rightarrow> False)"

definition wentWell :: "call \<times> error option \<Rightarrow> bool" where
  "wentWell ev = (snd ev = None \<or> swallowed ev)"



text \<open>
  A program stops at the first call whose error is not swallowed and returns that error; when
  it returns normally every call it made went well.
\<close>

definition failStop :: "('w, 'a) prog \<Rightarrow> bool" where
  "failStop m =
     (\<forall>st. case m st of
             (Inl err, st') \<Rightarrow>
               \<exists>pre c. calls st' = calls st @ pre @ [(c, Some err)] \<and>
                       \<not> swallowed (c, Some err) \<and> list_all wentWell pre
           | (Inr a, st') \<Rightarrow>
               \<exists>ext. calls st' = calls st @ ext \<and> list_all wentWell ext)"


section \<open>Concrete runs\<close>

text \<open>The order of visiting a map that the concrete runs use: the order of insertion.\<close>

definition insertionOrder :: "'v gomap \<Rightarrow> 'v gomap" where
  "insertionOrder m = m"

text \<open>
  Scenario 1: the user \<^verbatim>\<open>c@x.com\<close> is active in the target and suspended in the source; the
  group \<^verbatim>\<open>G\<close> exists on both sides with that user as its member.
\<close>

definition dir1 :: directory where
  "dir1 = \<lparr>d_groups = [\<lparr>Email = ''g@x.com'', Name = ''G''\<rparr>],
           d_members = [(''g@x.com'', [\<lparr>M_Email = ''c@x.com'', M_Type = ''USER''\<rparr>])],
           d_users = [(''email:c@x.com'',
                       [\<lparr>PrimaryEmail = ''c@x.com'', G_GivenName = ''Cy'', G_FamilyName = ''Lee'',
                         Suspended = True\<rparr>])],
           d_deleted = []\<rparr>"

definition store1 :: store where
  "store1 = \<lparr>st_users = [\<lparr>ID = ''u1'', Username = ''c@x.com'', GivenName = ''Cy'',
                           FamilyName = ''Lee'', Active = True\<rparr>],
             st_groups = [\<lparr>GroupID = ''g1'', DisplayName = ''G''\<rparr>],
             st_members = [(''G'', ''c@x.com'')]\<rparr>"

definition sync1 :: "store syncGSuite" where
  "sync1 = \<lparr>s_aws = memAws, s_google = memGoogle dir1, s_cfg = noFilter\<rparr>"




text \<open>
  Scenario 3: the target already holds \<^verbatim>\<open>a@x.com\<close>, but its user listing is stale and does
  not show the user, so the diff asks for a creation that the store answers with 409.
\<close>

definition dir3 :: directory where
  "dir3 = \<lparr>d_groups = [\<lparr>Email = ''g@x.com'', Name = ''G''\<rparr>],
           d_members = [(''g@x.com'', [\<lparr>M_Email = ''a@x.com'', M_Type = ''USER''\<rparr>])],
           d_users = [(''email:a@x.com'',
                       [\<lparr>PrimaryEmail = ''a@x.com'', G_GivenName = ''Ann'', G_FamilyName = ''Lee'',
                         Suspended = False\<rparr>])],
           d_deleted = []\<rparr>"

definition store3 :: store where
  "store3 = \<lparr>st_users = [\<lparr>ID = ''u1'', Username = ''a@x.com'', GivenName = ''Ann'',
                           FamilyName = ''Lee'', Active = True\<rparr>],
             st_groups = [\<lparr>GroupID = ''g1'', DisplayName = ''G''\<rparr>],
             st_members = []\<rparr>"

definition sync3 :: "store syncGSuite" where
  "sync3 = \<lparr>s_aws = memAws\<lparr>aws_GetUsers := (\<lambda>w. (Inr [], w))\<rparr>,
            s_google = memGoogle dir3, s_cfg = noFilter\<rparr>"




text \<open>
  Scenario 5: the group \<^verbatim>\<open>G\<close> has the member addresses \<^verbatim>\<open>alias@x.com\<close> and
  \<^verbatim>\<open>a@x.com\<close>; the directory resolves both to the user whose primary email is
  \<^verbatim>\<open>a@x.com\<close>.
\<close>

definition dir5 :: directory where
  "dir5 = \<lparr>d_groups = [\<lparr>Email = ''g@x.com'', Name = ''G''\<rparr>],
           d_members = [(''g@x.com'', [\<lparr>M_Email = ''alias@x.com'', M_Type = ''USER''\<rparr>,
                                       \<lparr>M_Email = ''a@x.com'', M_Type = ''USER''\<rparr>])],
           d_users = [(''email:alias@x.com'',
                       [\<lparr>PrimaryEmail = ''a@x.com'', G_GivenName = ''Ann'', G_FamilyName = ''Lee'',
                         Suspended = False\<rparr>]),
                      (''email:a@x.com'',
                       [\<lparr>PrimaryEmail = ''a@x.com'', G_GivenName = ''Ann'', G_FamilyName = ''Lee'',
                         Suspended = False\<rparr>])],
           d_deleted = []\<rparr>"

definition store5 :: store where
  "store5 = \<lparr>st_users = [], st_groups = [], st_members = []\<rparr>"

definition sync5 :: "store syncGSuite" where
  "sync5 = \<lparr>s_aws = memAws, s_google = memGoogle dir5, s_cfg = noFilter\<rparr>"

text \<open>
  Scenario 6, for the alternate mode: \<^verbatim>\<open>c@x.com\<close> is active on both sides, and its given
  name differs between source and target.
\<close>

definition dir6 :: directory where
  "dir6 = \<lparr>d_groups = [], d_members = [],
           d_users = [([],
                       [\<lparr>PrimaryEmail = ''c@x.com'', G_GivenName = ''Cyrus'', G_FamilyName = ''Lee'',
                         Suspended = False\<rparr>])],
           d_deleted = []\<rparr>"

definition sync6 :: "store syncGSuite" where
  "sync6 = \<lparr>s_aws = memAws, s_google = memGoogle dir6, s_cfg = noFilter\<rparr>"


section \<open>Lemmas about the filter policy and the diff engine\<close>

lemma scan_iff: "scan xs name \<longleftrightarrow> name \<in> set xs"
  by (induction xs) auto

lemma awsUserMap_None:
  "awsUserMap us m k = None \<longleftrightarrow> m k = None \<and> k \<notin> Username ` set us"
  by (induction us arbitrary: m) auto

lemma awsUserMap_Some_key:
  "awsUserMap us m k = Some u \<Longrightarrow> m k = Some u \<or> (u \<in> set us \<and> Username u = k)"
proof (induction us arbitrary: m)
  case Nil
  then show ?case by simp
next
  case (Cons a us)
  from Cons.prems have "awsUserMap us (m(Username a \<mapsto> a)) k = Some u" by simp
  from Cons.IH [OF this] show ?case by (auto split: if_splits)
qed

lemma awsUserMap_other:
  "k \<notin> Username ` set us \<Longrightarrow> awsUserMap us m k = m k"
  by (induction us arbitrary: m) auto

lemma awsUserMap_distinct:
  "distinct (map Username us) \<Longrightarrow> u \<in> set us \<Longrightarrow> awsUserMap us m (Username u) = Some u"
proof (induction us arbitrary: m)
  case Nil
  then show ?case by simp
next
  case (Cons a us)
  show ?case
  proof (cases "u = a")
    case True
    have "Username a \<notin> Username ` set us" using Cons.prems(1) by simp
    then show ?thesis using True by (simp add: awsUserMap_other)
  next
    case False
    then show ?thesis using Cons by auto
  qed
qed

lemma googleUserMap_eq:
  "googleUserMap gs m k = (if k \<in> PrimaryEmail ` set gs then Some () else m k)"
  by (induction gs arbitrary: m) auto

lemma userOpsGoogleLoop_eq:
  "userOpsGoogleLoop m gs (add, upd, eq) =
     (add @ map fromGoogle (filter (\<lambda>g. m (PrimaryEmail g) = None) gs),
      upd @ map fromGoogle
              (filter (\<lambda>g. \<exists>a. m (PrimaryEmail g) = Some a \<and> userMismatch a g) gs),
      eq @ map (\<lambda>g. the (m (PrimaryEmail g)))
             (filter (\<lambda>g. \<exists>a. m (PrimaryEmail g) = Some a \<and> \<not> userMismatch a g) gs))"
  by (induction gs arbitrary: add upd eq) (auto simp: fromGoogle_def split: option.splits)

lemma userOpsAwsLoop_eq:
  "userOpsAwsLoop gm us del = del @ map fromAws (filter (\<lambda>a. gm (Username a) = None) us)"
  by (induction us arbitrary: del) (auto simp: fromAws_def split: option.splits)

lemma getUserOperations_lists:
  "getUserOperations awsUsers googleUsers =
     (map fromGoogle (filter (\<lambda>g. awsUserMap awsUsers Map.empty (PrimaryEmail g) = None) googleUsers),
      map fromAws (filter (\<lambda>a. Username a \<notin> PrimaryEmail ` set googleUsers) awsUsers),
      map fromGoogle
        (filter (\<lambda>g. \<exists>a. awsUserMap awsUsers Map.empty (PrimaryEmail g) = Some a \<and>
                       userMismatch a g) googleUsers),
      map (\<lambda>g. the (awsUserMap awsUsers Map.empty (PrimaryEmail g)))
        (filter (\<lambda>g. \<exists>a. awsUserMap awsUsers Map.empty (PrimaryEmail g) = Some a \<and>
                       \<not> userMismatch a g) googleUsers))"
  by (simp add: getUserOperations_def Let_def userOpsGoogleLoop_eq userOpsAwsLoop_eq googleUserMap_eq)

lemma awsUserMap_empty_Some:
  "awsUserMap us Map.empty k = Some u \<Longrightarrow> u \<in> set us \<and> Username u = k"
  using awsUserMap_Some_key [of us Map.empty k u] by simp

lemma Username_fromGoogle [simp]: "Username (fromGoogle g) = PrimaryEmail g"
  by (simp add: fromGoogle_def NewUser_def)

lemma Username_fromAws [simp]: "Username (fromAws a) = Username a"
  by (simp add: fromAws_def NewUser_def)

lemma ops_add:
  "getUserOperations awsUsers googleUsers = (add, del, upd, eq) \<Longrightarrow>
   add = map fromGoogle (filter (\<lambda>g. PrimaryEmail g \<notin> Username ` set awsUsers) googleUsers)"
  unfolding getUserOperations_lists by (simp add: awsUserMap_None)

lemma ops_del:
  "getUserOperations awsUsers googleUsers = (add, del, upd, eq) \<Longrightarrow>
   del = map fromAws (filter (\<lambda>a. Username a \<notin> PrimaryEmail ` set googleUsers) awsUsers)"
  unfolding getUserOperations_lists by simp

lemma ops_upd:
  "getUserOperations awsUsers googleUsers = (add, del, upd, eq) \<Longrightarrow>
   upd = map fromGoogle
        (filter (\<lambda>g. \<exists>a. awsUserMap awsUsers Map.empty (PrimaryEmail g) = Some a \<and>
                       userMismatch a g) googleUsers)"
  unfolding getUserOperations_lists by simp

lemma ops_eq:
  "getUserOperations awsUsers googleUsers = (add, del, upd, eq) \<Longrightarrow>
   eq = map (\<lambda>g. the (awsUserMap awsUsers Map.empty (PrimaryEmail g)))
        (filter (\<lambda>g. \<exists>a. awsUserMap awsUsers Map.empty (PrimaryEmail g) = Some a \<and>
                       \<not> userMismatch a g) googleUsers)"
  unfolding getUserOperations_lists by simp

lemma user_keys_add:
  assumes "getUserOperations awsUsers googleUsers = (add, del, upd, eq)"
  shows "k \<in> Username ` set add \<longleftrightarrow>
         k \<in> PrimaryEmail ` set googleUsers \<and> k \<notin> Username ` set awsUsers"
  unfolding ops_add [OF assms] by (auto simp: image_image)

lemma user_keys_del:
  assumes "getUserOperations awsUsers googleUsers = (add, del, upd, eq)"
  shows "k \<in> Username ` set del \<longleftrightarrow>
         k \<in> Username ` set awsUsers \<and> k \<notin> PrimaryEmail ` set googleUsers"
  unfolding ops_del [OF assms] by (auto simp: image_image)

lemma user_keys_upd:
  assumes "getUserOperations awsUsers googleUsers = (add, del, upd, eq)"
  shows "k \<in> Username ` set upd \<longleftrightarrow>
         (\<exists>g\<in>set googleUsers. \<exists>a. PrimaryEmail g = k \<and>
             awsUserMap awsUsers Map.empty k = Some a \<and> userMismatch a g)"
  unfolding ops_upd [OF assms] by (auto simp: image_image)

lemma user_keys_eq:
  assumes "getUserOperations awsUsers googleUsers = (add, del, upd, eq)"
  shows "k \<in> Username ` set eq \<longleftrightarrow>
         (\<exists>g\<in>set googleUsers. \<exists>a. PrimaryEmail g = k \<and>
             awsUserMap awsUsers Map.empty k = Some a \<and> \<not> userMismatch a g)"
proof -
  have "set eq = (\<lambda>g. the (awsUserMap awsUsers Map.empty (PrimaryEmail g))) `
      {g \<in> set googleUsers. \<exists>a. awsUserMap awsUsers Map.empty (PrimaryEmail g) = Some a \<and>
                       \<not> userMismatch a g}"
    unfolding ops_eq [OF assms] by simp
  moreover have "Username (the (awsUserMap awsUsers Map.empty (PrimaryEmail g))) = PrimaryEmail g"
    if "awsUserMap awsUsers Map.empty (PrimaryEmail g) = Some a" for g a
    using that awsUserMap_empty_Some [of awsUsers "PrimaryEmail g" a] by simp
  ultimately have "Username ` set eq = PrimaryEmail `
      {g \<in> set googleUsers. \<exists>a. awsUserMap awsUsers Map.empty (PrimaryEmail g) = Some a \<and>
                       \<not> userMismatch a g}"
    by (force simp: image_iff)
  then show ?thesis by auto
qed

lemma distinct_key_unique:
  "distinct (map f xs) \<Longrightarrow> x \<in> set xs \<Longrightarrow> y \<in> set xs \<Longrightarrow> f x = f y \<Longrightarrow> x = y"
  by (meson distinct_map inj_onD)

lemma awsGroupMap_None:
  "awsGroupMap gs m k = None \<longleftrightarrow> m k = None \<and> k \<notin> DisplayName ` set gs"
  by (induction gs arbitrary: m) auto

lemma awsGroupMap_Some_key:
  "awsGroupMap gs m k = Some g \<Longrightarrow> m k = Some g \<or> (g \<in> set gs \<and> DisplayName g = k)"
proof (induction gs arbitrary: m)
  case Nil
  then show ?case by simp
next
  case (Cons a gs)
  from Cons.prems have "awsGroupMap gs (m(DisplayName a \<mapsto> a)) k = Some g" by simp
  from Cons.IH [OF this] show ?case by (auto split: if_splits)
qed

lemma googleGroupMap_eq:
  "googleGroupMap gs m k = (if k \<in> Name ` set gs then Some () else m k)"
  by (induction gs arbitrary: m) auto

lemma groupOpsGoogleLoop_eq:
  "groupOpsGoogleLoop m gs (add, eq) =
     (add @ map (\<lambda>g. NewGroup (Name g)) (filter (\<lambda>g. m (Name g) = None) gs),
      eq @ map (\<lambda>g. the (m (Name g))) (filter (\<lambda>g. m (Name g) \<noteq> None) gs))"
  by (induction gs arbitrary: add eq) (auto split: option.splits)

lemma groupOpsAwsLoop_eq:
  "groupOpsAwsLoop gm gs del =
     del @ map (\<lambda>a. NewGroup (DisplayName a)) (filter (\<lambda>a. gm (DisplayName a) = None) gs)"
  by (induction gs arbitrary: del) (auto split: option.splits)

lemma getGroupOperations_lists:
  "getGroupOperations awsGroups googleGroups =
     (map (\<lambda>g. NewGroup (Name g))
        (filter (\<lambda>g. Name g \<notin> DisplayName ` set awsGroups) googleGroups),
      map (\<lambda>a. NewGroup (DisplayName a))
        (filter (\<lambda>a. DisplayName a \<notin> Name ` set googleGroups) awsGroups),
      map (\<lambda>g. the (awsGroupMap awsGroups Map.empty (Name g)))
        (filter (\<lambda>g. Name g \<in> DisplayName ` set awsGroups) googleGroups))"
  by (simp add: getGroupOperations_def Let_def groupOpsGoogleLoop_eq groupOpsAwsLoop_eq
      googleGroupMap_eq awsGroupMap_None del: not_None_eq)

lemma DisplayName_NewGroup [simp]: "DisplayName (NewGroup n) = n"
  by (simp add: NewGroup_def)

lemma group_keys:
  assumes "getGroupOperations awsGroups googleGroups = (add, del, eq)"
  shows "k \<in> DisplayName ` set add \<longleftrightarrow>
           k \<in> Name ` set googleGroups \<and> k \<notin> DisplayName ` set awsGroups"
    and "k \<in> DisplayName ` set del \<longleftrightarrow>
           k \<in> DisplayName ` set awsGroups \<and> k \<notin> Name ` set googleGroups"
    and "k \<in> DisplayName ` set eq \<longleftrightarrow>
           k \<in> Name ` set googleGroups \<and> k \<in> DisplayName ` set awsGroups"
proof -
  from assms have add: "add = map (\<lambda>g. NewGroup (Name g))
        (filter (\<lambda>g. Name g \<notin> DisplayName ` set awsGroups) googleGroups)"
    and del: "del = map (\<lambda>a. NewGroup (DisplayName a))
        (filter (\<lambda>a. DisplayName a \<notin> Name ` set googleGroups) awsGroups)"
    and eq: "eq = map (\<lambda>g. the (awsGroupMap awsGroups Map.empty (Name g)))
        (filter (\<lambda>g. Name g \<in> DisplayName ` set awsGroups) googleGroups)"
    unfolding getGroupOperations_lists by simp_all
  show "k \<in> DisplayName ` set add \<longleftrightarrow>
           k \<in> Name ` set googleGroups \<and> k \<notin> DisplayName ` set awsGroups"
    unfolding add by (auto simp: image_image)
  show "k \<in> DisplayName ` set del \<longleftrightarrow>
           k \<in> DisplayName ` set awsGroups \<and> k \<notin> Name ` set googleGroups"
    unfolding del by (auto simp: image_image)
  have key: "DisplayName (the (awsGroupMap awsGroups Map.empty (Name g))) = Name g"
    if "Name g \<in> DisplayName ` set awsGroups" for g
  proof -
    from that obtain a where "awsGroupMap awsGroups Map.empty (Name g) = Some a"
      using awsGroupMap_None [of awsGroups Map.empty "Name g"]
      by (cases "awsGroupMap awsGroups Map.empty (Name g)") auto
    then show ?thesis using awsGroupMap_Some_key [of awsGroups Map.empty "Name g" a] by simp
  qed
  have "DisplayName ` set eq =
        Name ` {g \<in> set googleGroups. Name g \<in> DisplayName ` set awsGroups}"
    unfolding eq using key by (force simp: image_iff)
  then show "k \<in> DisplayName ` set eq \<longleftrightarrow>
           k \<in> Name ` set googleGroups \<and> k \<in> DisplayName ` set awsGroups"
    by auto
qed

lemma memberEmails_eq:
  "memberEmails us s e = (if e \<in> PrimaryEmail ` set us then Some () else s e)"
  by (induction us arbitrary: s) auto

lemma buildMbG_eq:
  "distinct (map fst gG) \<Longrightarrow>
   buildMbG gG m n = (case map_of gG n of Some us \<Rightarrow> Some (memberEmails us Map.empty) | None \<Rightarrow> m n)"
proof (induction gG arbitrary: m)
  case Nil
  then show ?case by simp
next
  case (Cons p gG)
  obtain k us where p: "p = (k, us)" by (cases p)
  from Cons.prems p have k: "k \<notin> fst ` set gG" and d: "distinct (map fst gG)" by auto
  from k have "map_of gG k = None" by (simp add: map_of_eq_None_iff)
  then show ?case using Cons.IH [OF d] p by (auto split: option.splits)
qed

lemma mbGFound_eq:
  "distinct (map fst gG) \<Longrightarrow>
   mbGFound (buildMbG gG Map.empty) n e \<longleftrightarrow> e \<in> PrimaryEmail ` set (lookupList gG n)"
  by (cases "map_of gG n") (simp_all add: mbGFound_def buildMbG_eq lookupList_def memberEmails_eq)

lemma lookupList_update:
  "lookupList (AList.update n v al) k = (if k = n then v else lookupList al k)"
  by (simp add: lookupList_def update_conv')

lemma lookupList_Cons:
  "lookupList ((n, v) # al) k = (if k = n then v else lookupList al k)"
  by (simp add: lookupList_def)

lemma lookupList_absent:
  "n \<notin> fst ` set al \<Longrightarrow> lookupList al n = []"
proof -
  assume "n \<notin> fst ` set al"
  then have "map_of al n = None" by (simp add: map_of_eq_None_iff)
  then show ?thesis by (simp add: lookupList_def)
qed

lemma groupUsersInner_fst:
  "lookupList (fst (groupUsersInner mbG n us (d, e))) k =
     (if k = n then lookupList d n @ filter (\<lambda>u. \<not> mbGFound mbG n (Username u)) us
      else lookupList d k)"
  by (induction us arbitrary: d e) (auto simp: lookupList_update)

lemma groupUsersInner_snd:
  "lookupList (snd (groupUsersInner mbG n us (d, e))) k =
     (if k = n then lookupList e n @ filter (\<lambda>u. mbGFound mbG n (Username u)) us
      else lookupList e k)"
  by (induction us arbitrary: d e) (auto simp: lookupList_update)

lemma groupUsersOuter_fst:
  "distinct (map fst al) \<Longrightarrow>
   lookupList (fst (groupUsersOuter mbG al acc)) k =
     lookupList (fst acc) k @ filter (\<lambda>u. \<not> mbGFound mbG k (Username u)) (lookupList al k)"
proof (induction al arbitrary: acc)
  case Nil
  then show ?case by (simp add: lookupList_def)
next
  case (Cons p al)
  obtain n us where p: "p = (n, us)" by (cases p)
  obtain d e where acc: "acc = (d, e)" by (cases acc)
  from Cons.prems p have n: "n \<notin> fst ` set al" and dist: "distinct (map fst al)" by auto
  show ?case
    using Cons.IH [OF dist, of "groupUsersInner mbG n us (d, e)"] p acc lookupList_absent [OF n]
    by (simp add: groupUsersInner_fst lookupList_Cons)
qed

lemma groupUsersOuter_snd:
  "distinct (map fst al) \<Longrightarrow>
   lookupList (snd (groupUsersOuter mbG al acc)) k =
     lookupList (snd acc) k @ filter (\<lambda>u. mbGFound mbG k (Username u)) (lookupList al k)"
proof (induction al arbitrary: acc)
  case Nil
  then show ?case by (simp add: lookupList_def)
next
  case (Cons p al)
  obtain n us where p: "p = (n, us)" by (cases p)
  obtain d e where acc: "acc = (d, e)" by (cases acc)
  from Cons.prems p have n: "n \<notin> fst ` set al" and dist: "distinct (map fst al)" by auto
  show ?case
    using Cons.IH [OF dist, of "groupUsersInner mbG n us (d, e)"] p acc lookupList_absent [OF n]
    by (simp add: groupUsersInner_snd lookupList_Cons)
qed

lemma filterGoogleGroups_acc:
  "filterGoogleGroups cfg gs acc = acc @ filter (\<lambda>g. Email g \<notin> set (IgnoreGroups cfg)) gs"
  by (induction gs arbitrary: acc) (auto simp: ignoreGroup_def scan_iff)

lemma filterGoogleGroups_eq:
  "filterGoogleGroups cfg gs [] = filter (\<lambda>g. Email g \<notin> set (IgnoreGroups cfg)) gs"
  by (simp add: filterGoogleGroups_acc)

lemma user_keys_partition:
  assumes "distinct (map PrimaryEmail googleUsers)"
    and ops: "getUserOperations awsUsers googleUsers = (add, del, upd, eq)"
    and k: "k \<in> Username ` set awsUsers \<union> PrimaryEmail ` set googleUsers"
  shows "exactly_one [k \<in> Username ` set add, k \<in> Username ` set del,
                      k \<in> Username ` set upd, k \<in> Username ` set eq]"
proof (cases "k \<in> PrimaryEmail ` set googleUsers")
  case False
  then have "k \<in> Username ` set awsUsers" using k by simp
  with False have "k \<notin> Username ` set add" "k \<in> Username ` set del"
    by (simp_all add: user_keys_add [OF ops] user_keys_del [OF ops])
  moreover from False have "k \<notin> Username ` set upd" "k \<notin> Username ` set eq"
    unfolding user_keys_upd [OF ops] user_keys_eq [OF ops] by blast+
  ultimately show ?thesis by (simp add: exactly_one_def)
next
  case True
  then obtain g where g: "g \<in> set googleUsers" "PrimaryEmail g = k" by auto
  have uniq: "g' = g" if "g' \<in> set googleUsers" "PrimaryEmail g' = k" for g'
    using distinct_key_unique [OF assms(1) that(1) g(1)] that(2) g(2) by simp
  from True have ndel: "k \<notin> Username ` set del" by (simp add: user_keys_del [OF ops])
  show ?thesis
  proof (cases "awsUserMap awsUsers Map.empty k")
    case None
    then have "k \<notin> Username ` set awsUsers" by (simp add: awsUserMap_None)
    with True have "k \<in> Username ` set add" by (simp add: user_keys_add [OF ops])
    moreover from None have "k \<notin> Username ` set upd" "k \<notin> Username ` set eq"
      unfolding user_keys_upd [OF ops] user_keys_eq [OF ops] by simp_all
    ultimately show ?thesis using ndel by (simp add: exactly_one_def)
  next
    case (Some a)
    then have "k \<in> Username ` set awsUsers"
      using awsUserMap_empty_Some [OF Some] by auto
    then have nadd: "k \<notin> Username ` set add" by (simp add: user_keys_add [OF ops])
    have upd: "k \<in> Username ` set upd \<longleftrightarrow> userMismatch a g"
      unfolding user_keys_upd [OF ops]
    proof
      assume "\<exists>g\<in>set googleUsers. \<exists>a. PrimaryEmail g = k \<and>
                awsUserMap awsUsers Map.empty k = Some a \<and> userMismatch a g"
      then obtain g' a' where "g' \<in> set googleUsers" "PrimaryEmail g' = k"
          "awsUserMap awsUsers Map.empty k = Some a'" "userMismatch a' g'" by blast
      with uniq [of g'] Some show "userMismatch a g" by simp
    next
      assume "userMismatch a g"
      with g Some show "\<exists>g\<in>set googleUsers. \<exists>a. PrimaryEmail g = k \<and>
                awsUserMap awsUsers Map.empty k = Some a \<and> userMismatch a g" by blast
    qed
    have eq: "k \<in> Username ` set eq \<longleftrightarrow> \<not> userMismatch a g"
      unfolding user_keys_eq [OF ops]
    proof
      assume "\<exists>g\<in>set googleUsers. \<exists>a. PrimaryEmail g = k \<and>
                awsUserMap awsUsers Map.empty k = Some a \<and> \<not> userMismatch a g"
      then obtain g' a' where "g' \<in> set googleUsers" "PrimaryEmail g' = k"
          "awsUserMap awsUsers Map.empty k = Some a'" "\<not> userMismatch a' g'" by blast
      with uniq [of g'] Some show "\<not> userMismatch a g" by simp
    next
      assume "\<not> userMismatch a g"
      with g Some show "\<exists>g\<in>set googleUsers. \<exists>a. PrimaryEmail g = k \<and>
                awsUserMap awsUsers Map.empty k = Some a \<and> \<not> userMismatch a g" by blast
    qed
    show ?thesis using nadd ndel upd eq by (simp add: exactly_one_def)
  qed
qed

lemma group_keys_partition:
  assumes ops: "getGroupOperations awsGroups googleGroups = (add, del, eq)"
    and k: "k \<in> DisplayName ` set awsGroups \<union> Name ` set googleGroups"
  shows "exactly_one [k \<in> DisplayName ` set add, k \<in> DisplayName ` set del,
                      k \<in> DisplayName ` set eq]"
  using k unfolding exactly_one_def group_keys [OF ops] by auto


section \<open>Properties of the filter policy\<close>

text \<open>
  Claim C3, as stated: a group is excluded exactly when it matches an ignore-list entry, or the
  include-list is non-empty and the email matches none of its entries; with no include-list,
  every group that is not ignored takes part. \<^const>\<open>spec_groupExcluded\<close> is that policy.
  The guard of \<^verbatim>\<open>SyncGroups\<close> differs from it when the include-list is empty:
  \<^verbatim>\<open>includeGroup\<close> then returns false for every name, so the guard skips every group.
\<close>

theorem syncGroupsSkips_empty_include_counterexample:
  "syncGroupsSkips \<lparr>IgnoreUsers = [], IgnoreGroups = [], IncludeGroups = []\<rparr>
     \<lparr>Email = ''g@x.com'', Name = ''G''\<rparr>
   \<and> \<not> spec_groupExcluded \<lparr>IgnoreUsers = [], IgnoreGroups = [], IncludeGroups = []\<rparr> ''g@x.com''"
  by (simp add: syncGroupsSkips_def ignoreGroup_def includeGroup_def spec_groupExcluded_def)

text \<open>
  Claim C3, amended: the guard of \<^verbatim>\<open>SyncGroups\<close> skips a group if and only if its email
  equals an ignore-list entry or equals no include-list entry. When the include-list is
  non-empty this is the stated policy; when it is empty every group is skipped, and a skipped
  group causes no collaborator call. The filter of \<^verbatim>\<open>SyncGroupsUsers\<close> keeps exactly the
  groups whose email is not on the ignore-list and never reads the include-list.
\<close>

theorem syncGroupsSkips_iff:
  "(syncGroupsSkips cfg g \<longleftrightarrow>
      Email g \<in> set (IgnoreGroups cfg) \<or> Email g \<notin> set (IncludeGroups cfg))
   \<and> (IncludeGroups cfg \<noteq> [] \<longrightarrow> syncGroupsSkips cfg g = spec_groupExcluded cfg (Email g))
   \<and> (IncludeGroups cfg = [] \<longrightarrow> syncGroupsSkips cfg g)
   \<and> (syncGroupsSkips (s_cfg s) g \<longrightarrow> syncGroupStep s rangeOrder g st = (Inr (), st))
   \<and> filterGoogleGroups cfg gs [] = filter (\<lambda>g. Email g \<notin> set (IgnoreGroups cfg)) gs"
  by (auto simp: syncGroupsSkips_def ignoreGroup_def includeGroup_def scan_iff
      spec_groupExcluded_def syncGroupStep_def returnE_def filterGoogleGroups_eq)

theorem syncGroupsSkips_iff_witness:
  "IncludeGroups \<lparr>IgnoreUsers = [], IgnoreGroups = [''h@x.com''], IncludeGroups = [''g@x.com'']\<rparr> \<noteq> []
   \<and> \<not> syncGroupsSkips \<lparr>IgnoreUsers = [], IgnoreGroups = [''h@x.com''], IncludeGroups = [''g@x.com'']\<rparr>
         \<lparr>Email = ''g@x.com'', Name = ''G''\<rparr>
   \<and> \<not> spec_groupExcluded
         \<lparr>IgnoreUsers = [], IgnoreGroups = [''h@x.com''], IncludeGroups = [''g@x.com'']\<rparr> ''g@x.com''
   \<and> syncGroupsSkips noFilter \<lparr>Email = ''g@x.com'', Name = ''G''\<rparr>"
  using syncGroupsSkips_iff
    [of "\<lparr>IgnoreUsers = [], IgnoreGroups = [''h@x.com''], IncludeGroups = [''g@x.com'']\<rparr>"
        "\<lparr>Email = ''g@x.com'', Name = ''G''\<rparr>"]
    syncGroupsSkips_iff [of noFilter "\<lparr>Email = ''g@x.com'', Name = ''G''\<rparr>"]
  by (simp add: noFilter_def spec_groupExcluded_def) blast


section \<open>Properties of the diff engine\<close>

text \<open>
  Claim C4: for snapshots keyed by primary email (no key twice on either side),
  \<^verbatim>\<open>getUserOperations\<close> puts a source-only user into \<^verbatim>\<open>add\<close> as the record built from the
  source attributes with active = not suspended; a user on both sides into \<^verbatim>\<open>update\<close>,
  as that same whole record, exactly when the target's active flag equals the source's
  suspended flag or the given name or the family name differs, and into \<^verbatim>\<open>equals\<close>
  otherwise; and a target-only user into \<^verbatim>\<open>delete\<close>. Every entry of \<^verbatim>\<open>update\<close> is a
  whole record built from one source user, never a partial patch.
\<close>

theorem getUserOperations_classifies:
  assumes da: "distinct (map Username awsUsers)"
    and dg: "distinct (map PrimaryEmail googleUsers)"
    and ops: "getUserOperations awsUsers googleUsers = (add, del, upd, eq)"
  shows "(\<forall>g\<in>set googleUsers. PrimaryEmail g \<notin> Username ` set awsUsers \<longrightarrow>
            NewUser (G_GivenName g) (G_FamilyName g) (PrimaryEmail g) (\<not> Suspended g) \<in> set add)
       \<and> (\<forall>g\<in>set googleUsers. \<forall>a\<in>set awsUsers. Username a = PrimaryEmail g \<longrightarrow>
            (if Active a = Suspended g \<or> GivenName a \<noteq> G_GivenName g \<or>
                FamilyName a \<noteq> G_FamilyName g
             then NewUser (G_GivenName g) (G_FamilyName g) (PrimaryEmail g) (\<not> Suspended g)
                    \<in> set upd \<and> PrimaryEmail g \<notin> Username ` set eq
             else a \<in> set eq \<and> PrimaryEmail g \<notin> Username ` set upd))
       \<and> (\<forall>a\<in>set awsUsers. Username a \<notin> PrimaryEmail ` set googleUsers \<longrightarrow>
            NewUser (GivenName a) (FamilyName a) (Username a) (Active a) \<in> set del)
       \<and> (\<forall>r\<in>set upd. \<exists>g\<in>set googleUsers.
            r = NewUser (G_GivenName g) (G_FamilyName g) (PrimaryEmail g) (\<not> Suspended g))"
proof (intro conjI ballI impI)
  fix g assume "g \<in> set googleUsers" "PrimaryEmail g \<notin> Username ` set awsUsers"
  then show "NewUser (G_GivenName g) (G_FamilyName g) (PrimaryEmail g) (\<not> Suspended g) \<in> set add"
    unfolding ops_add [OF ops] by (simp add: fromGoogle_def [symmetric])
next
  fix a assume "a \<in> set awsUsers" "Username a \<notin> PrimaryEmail ` set googleUsers"
  then show "NewUser (GivenName a) (FamilyName a) (Username a) (Active a) \<in> set del"
    unfolding ops_del [OF ops] by (simp add: fromAws_def [symmetric])
next
  fix r assume "r \<in> set upd"
  then show "\<exists>g\<in>set googleUsers.
            r = NewUser (G_GivenName g) (G_FamilyName g) (PrimaryEmail g) (\<not> Suspended g)"
    unfolding ops_upd [OF ops] by (auto simp: fromGoogle_def)
next
  fix g a assume g: "g \<in> set googleUsers" and a: "a \<in> set awsUsers"
    and key: "Username a = PrimaryEmail g"
  have look: "awsUserMap awsUsers Map.empty (PrimaryEmail g) = Some a"
    using awsUserMap_distinct [OF da a, of Map.empty] key by simp
  have uniq: "g' = g" if "g' \<in> set googleUsers" "PrimaryEmail g' = PrimaryEmail g" for g'
    using distinct_key_unique [OF dg that(1) g] that(2) by simp
  have mm: "userMismatch a g \<longleftrightarrow> (Active a = Suspended g \<or> GivenName a \<noteq> G_GivenName g \<or>
                FamilyName a \<noteq> G_FamilyName g)"
    by (simp add: userMismatch_def)
  show "if Active a = Suspended g \<or> GivenName a \<noteq> G_GivenName g \<or>
                FamilyName a \<noteq> G_FamilyName g
             then NewUser (G_GivenName g) (G_FamilyName g) (PrimaryEmail g) (\<not> Suspended g)
                    \<in> set upd \<and> PrimaryEmail g \<notin> Username ` set eq
             else a \<in> set eq \<and> PrimaryEmail g \<notin> Username ` set upd"
  proof (cases "userMismatch a g")
    case True
    have "fromGoogle g \<in> set upd"
      unfolding ops_upd [OF ops] using g look True by simp
    moreover have "PrimaryEmail g \<notin> Username ` set eq"
      unfolding user_keys_eq [OF ops]
    proof
      assume "\<exists>g'\<in>set googleUsers. \<exists>a. PrimaryEmail g' = PrimaryEmail g \<and>
                awsUserMap awsUsers Map.empty (PrimaryEmail g) = Some a \<and> \<not> userMismatch a g'"
      then obtain g' a' where "g' \<in> set googleUsers" "PrimaryEmail g' = PrimaryEmail g"
          "awsUserMap awsUsers Map.empty (PrimaryEmail g) = Some a'" "\<not> userMismatch a' g'"
        by blast
      with uniq [of g'] look True show False by simp
    qed
    ultimately show ?thesis using True mm by (simp add: fromGoogle_def)
  next
    case False
    have "the (awsUserMap awsUsers Map.empty (PrimaryEmail g)) \<in> set eq"
      unfolding ops_eq [OF ops] using g look False by (auto simp: image_iff intro!: bexI [of _ g])
    then have "a \<in> set eq" using look by simp
    moreover have "PrimaryEmail g \<notin> Username ` set upd"
      unfolding user_keys_upd [OF ops]
    proof
      assume "\<exists>g'\<in>set googleUsers. \<exists>a. PrimaryEmail g' = PrimaryEmail g \<and>
                awsUserMap awsUsers Map.empty (PrimaryEmail g) = Some a \<and> userMismatch a g'"
      then obtain g' a' where "g' \<in> set googleUsers" "PrimaryEmail g' = PrimaryEmail g"
          "awsUserMap awsUsers Map.empty (PrimaryEmail g) = Some a'" "userMismatch a' g'"
        by blast
      with uniq [of g'] look False show False by simp
    qed
    ultimately show ?thesis using False mm by simp
  qed
qed

theorem getUserOperations_classifies_witness:
  "distinct (map Username awsUsersEx) \<and> distinct (map PrimaryEmail googleUsersEx)
   \<and> getUserOperations awsUsersEx googleUsersEx =
       ([\<lparr>ID = [], Username = ''a@x.com'', GivenName = ''Ann'', FamilyName = ''Lee'', Active = True\<rparr>],
        [\<lparr>ID = [], Username = ''b@x.com'', GivenName = ''Bo'', FamilyName = ''Ray'', Active = True\<rparr>],
        [\<lparr>ID = [], Username = ''c@x.com'', GivenName = ''Cy'', FamilyName = ''Lee'', Active = False\<rparr>],
        [\<lparr>ID = ''u3'', Username = ''e@x.com'', GivenName = ''Ed'', FamilyName = ''Poe'', Active = True\<rparr>])
   \<and> (\<exists>g. g \<in> set googleUsersEx \<and>
          \<lparr>ID = [], Username = ''c@x.com'', GivenName = ''Cy'', FamilyName = ''Lee'', Active = False\<rparr> =
          NewUser (G_GivenName g) (G_FamilyName g) (PrimaryEmail g) (\<not> Suspended g))"
proof -
  have da: "distinct (map Username awsUsersEx)" by (simp add: awsUsersEx_def)
  have dg: "distinct (map PrimaryEmail googleUsersEx)" by (simp add: googleUsersEx_def)
  have ops: "getUserOperations awsUsersEx googleUsersEx =
       ([\<lparr>ID = [], Username = ''a@x.com'', GivenName = ''Ann'', FamilyName = ''Lee'', Active = True\<rparr>],
        [\<lparr>ID = [], Username = ''b@x.com'', GivenName = ''Bo'', FamilyName = ''Ray'', Active = True\<rparr>],
        [\<lparr>ID = [], Username = ''c@x.com'', GivenName = ''Cy'', FamilyName = ''Lee'', Active = False\<rparr>],
        [\<lparr>ID = ''u3'', Username = ''e@x.com'', GivenName = ''Ed'', FamilyName = ''Poe'', Active = True\<rparr>])"
    by code_simp
  from getUserOperations_classifies [OF da dg ops]
  have "\<forall>r\<in>set [\<lparr>ID = [], Username = ''c@x.com'', GivenName = ''Cy'', FamilyName = ''Lee'',
                    Active = False\<rparr>].
         \<exists>g\<in>set googleUsersEx.
           r = NewUser (G_GivenName g) (G_FamilyName g) (PrimaryEmail g) (\<not> Suspended g)"
    by blast
  then have "\<exists>g. g \<in> set googleUsersEx \<and>
          \<lparr>ID = [], Username = ''c@x.com'', GivenName = ''Cy'', FamilyName = ''Lee'', Active = False\<rparr> =
          NewUser (G_GivenName g) (G_FamilyName g) (PrimaryEmail g) (\<not> Suspended g)"
    by auto
  with da dg ops show ?thesis by blast
qed

text \<open>
  Claim C5: when no two users of a snapshot share a primary email and no two groups share a
  display name, every user key of either snapshot occurs in exactly one of the four user sets
  of \<^verbatim>\<open>getUserOperations\<close>, and every group key occurs in exactly one of the three group sets
  of \<^verbatim>\<open>getGroupOperations\<close>. (The proof needs the distinctness of the source users only.)
\<close>

theorem diff_sets_partition_keys:
  assumes "distinct (map Username awsUsers)" and dg: "distinct (map PrimaryEmail googleUsers)"
    and "distinct (map DisplayName awsGroups)" and "distinct (map Name googleGroups)"
    and uops: "getUserOperations awsUsers googleUsers = (addU, delU, updU, eqU)"
    and gops: "getGroupOperations awsGroups googleGroups = (addG, delG, eqG)"
  shows "(\<forall>k \<in> Username ` set awsUsers \<union> PrimaryEmail ` set googleUsers.
            exactly_one [k \<in> Username ` set addU, k \<in> Username ` set delU,
                         k \<in> Username ` set updU, k \<in> Username ` set eqU])
       \<and> (\<forall>k \<in> DisplayName ` set awsGroups \<union> Name ` set googleGroups.
            exactly_one [k \<in> DisplayName ` set addG, k \<in> DisplayName ` set delG,
                         k \<in> DisplayName ` set eqG])"
  using user_keys_partition [OF dg uops] group_keys_partition [OF gops] by blast

theorem diff_sets_partition_keys_witness:
  "distinct (map Username awsUsersEx) \<and> distinct (map PrimaryEmail googleUsersEx)
   \<and> distinct (map DisplayName awsGroupsEx) \<and> distinct (map Name googleGroupsEx)
   \<and> exactly_one [''c@x.com'' \<in> {''a@x.com''}, ''c@x.com'' \<in> {''b@x.com''},
                   ''c@x.com'' \<in> {''c@x.com''}, ''c@x.com'' \<in> {''e@x.com''}]
   \<and> exactly_one [''H'' \<in> {''K''}, ''H'' \<in> {''H''}, ''H'' \<in> {''G''}]"
proof -
  have da: "distinct (map Username awsUsersEx)" by (simp add: awsUsersEx_def)
  have dg: "distinct (map PrimaryEmail googleUsersEx)" by (simp add: googleUsersEx_def)
  have dag: "distinct (map DisplayName awsGroupsEx)" by (simp add: awsGroupsEx_def)
  have dgg: "distinct (map Name googleGroupsEx)" by (simp add: googleGroupsEx_def)
  have uops: "getUserOperations awsUsersEx googleUsersEx =
       ([\<lparr>ID = [], Username = ''a@x.com'', GivenName = ''Ann'', FamilyName = ''Lee'', Active = True\<rparr>],
        [\<lparr>ID = [], Username = ''b@x.com'', GivenName = ''Bo'', FamilyName = ''Ray'', Active = True\<rparr>],
        [\<lparr>ID = [], Username = ''c@x.com'', GivenName = ''Cy'', FamilyName = ''Lee'', Active = False\<rparr>],
        [\<lparr>ID = ''u3'', Username = ''e@x.com'', GivenName = ''Ed'', FamilyName = ''Poe'', Active = True\<rparr>])"
    by code_simp
  have gops: "getGroupOperations awsGroupsEx googleGroupsEx =
       ([\<lparr>GroupID = [], DisplayName = ''K''\<rparr>], [\<lparr>GroupID = [], DisplayName = ''H''\<rparr>],
        [\<lparr>GroupID = ''g1'', DisplayName = ''G''\<rparr>])"
    by code_simp
  have ku: "''c@x.com'' \<in> Username ` set awsUsersEx \<union> PrimaryEmail ` set googleUsersEx"
    by (simp add: awsUsersEx_def)
  have kg: "''H'' \<in> DisplayName ` set awsGroupsEx \<union> Name ` set googleGroupsEx"
    by (simp add: awsGroupsEx_def)
  from diff_sets_partition_keys [OF da dg dag dgg uops gops]
  have "exactly_one [''c@x.com'' \<in> Username ` set [\<lparr>ID = [], Username = ''a@x.com'',
                        GivenName = ''Ann'', FamilyName = ''Lee'', Active = True\<rparr>],
                     ''c@x.com'' \<in> Username ` set [\<lparr>ID = [], Username = ''b@x.com'',
                        GivenName = ''Bo'', FamilyName = ''Ray'', Active = True\<rparr>],
                     ''c@x.com'' \<in> Username ` set [\<lparr>ID = [], Username = ''c@x.com'',
                        GivenName = ''Cy'', FamilyName = ''Lee'', Active = False\<rparr>],
                     ''c@x.com'' \<in> Username ` set [\<lparr>ID = ''u3'', Username = ''e@x.com'',
                        GivenName = ''Ed'', FamilyName = ''Poe'', Active = True\<rparr>]]"
    and "exactly_one [''H'' \<in> DisplayName ` set [\<lparr>GroupID = [], DisplayName = ''K''\<rparr>],
                      ''H'' \<in> DisplayName ` set [\<lparr>GroupID = [], DisplayName = ''H''\<rparr>],
                      ''H'' \<in> DisplayName ` set [\<lparr>GroupID = ''g1'', DisplayName = ''G''\<rparr>]]"
    using ku kg by blast+
  then show ?thesis using da dg dag dgg by simp
qed

text \<open>
  Claim C7: for every group of the target-side membership map and every member of its member
  list, \<^verbatim>\<open>getGroupUsersOperations\<close> lists the member under \<^verbatim>\<open>delete\<close> for that group
  exactly when the member's username is not among the primary emails of the source group's
  members, and under \<^verbatim>\<open>equals\<close> exactly when it is. Both maps are Go maps, so their keys
  are pairwise distinct.
\<close>

theorem getGroupUsersOperations_classifies:
  assumes dg: "distinct (map fst gGroupsUsers)"
    and da: "distinct (map fst awsGroupsUsers)"
    and ops: "getGroupUsersOperations gGroupsUsers awsGroupsUsers = (delete, equals)"
    and grp: "(awsGroupName, awsGroupUsers) \<in> set awsGroupsUsers"
    and usr: "awsUser \<in> set awsGroupUsers"
  shows "(awsUser \<in> set (lookupList delete awsGroupName) \<longleftrightarrow>
            Username awsUser \<notin> PrimaryEmail ` set (lookupList gGroupsUsers awsGroupName))
       \<and> (awsUser \<in> set (lookupList equals awsGroupName) \<longleftrightarrow>
            Username awsUser \<in> PrimaryEmail ` set (lookupList gGroupsUsers awsGroupName))"
proof -
  have look: "lookupList awsGroupsUsers awsGroupName = awsGroupUsers"
    using da grp by (simp add: lookupList_def)
  have d: "lookupList delete awsGroupName =
      filter (\<lambda>u. \<not> mbGFound (buildMbG gGroupsUsers Map.empty) awsGroupName (Username u)) awsGroupUsers"
    using groupUsersOuter_fst [OF da, of "buildMbG gGroupsUsers Map.empty" "([], [])" awsGroupName]
      ops look
    by (simp add: getGroupUsersOperations_def lookupList_def)
  have e: "lookupList equals awsGroupName =
      filter (\<lambda>u. mbGFound (buildMbG gGroupsUsers Map.empty) awsGroupName (Username u)) awsGroupUsers"
    using groupUsersOuter_snd [OF da, of "buildMbG gGroupsUsers Map.empty" "([], [])" awsGroupName]
      ops look
    by (simp add: getGroupUsersOperations_def lookupList_def)
  show ?thesis unfolding d e using usr by (simp add: mbGFound_eq [OF dg])
qed

theorem getGroupUsersOperations_classifies_witness:
  "getGroupUsersOperations googleMembersEx awsMembersEx =
     ([(''G'', [\<lparr>ID = ''u2'', Username = ''c@x.com'', GivenName = ''Cy'', FamilyName = ''Lee'',
                 Active = True\<rparr>])],
      [(''G'', [\<lparr>ID = ''u1'', Username = ''b@x.com'', GivenName = ''Bo'', FamilyName = ''Ray'',
                 Active = True\<rparr>])])
   \<and> Username \<lparr>ID = ''u2'', Username = ''c@x.com'', GivenName = ''Cy'', FamilyName = ''Lee'',
                Active = True\<rparr> \<notin> PrimaryEmail ` set (lookupList googleMembersEx ''G'')"
proof -
  have dg: "distinct (map fst googleMembersEx)" by (simp add: googleMembersEx_def)
  have da: "distinct (map fst awsMembersEx)" by (simp add: awsMembersEx_def)
  have ops: "getGroupUsersOperations googleMembersEx awsMembersEx =
     ([(''G'', [\<lparr>ID = ''u2'', Username = ''c@x.com'', GivenName = ''Cy'', FamilyName = ''Lee'',
                 Active = True\<rparr>])],
      [(''G'', [\<lparr>ID = ''u1'', Username = ''b@x.com'', GivenName = ''Bo'', FamilyName = ''Ray'',
                 Active = True\<rparr>])])"
    by code_simp
  have grp: "(''G'', [\<lparr>ID = ''u1'', Username = ''b@x.com'', GivenName = ''Bo'', FamilyName = ''Ray'',
                       Active = True\<rparr>,
                     \<lparr>ID = ''u2'', Username = ''c@x.com'', GivenName = ''Cy'', FamilyName = ''Lee'',
                       Active = True\<rparr>]) \<in> set awsMembersEx"
    by (simp add: awsMembersEx_def)
  have usr: "\<lparr>ID = ''u2'', Username = ''c@x.com'', GivenName = ''Cy'', FamilyName = ''Lee'',
              Active = True\<rparr>
             \<in> set [\<lparr>ID = ''u1'', Username = ''b@x.com'', GivenName = ''Bo'', FamilyName = ''Ray'',
                       Active = True\<rparr>,
                     \<lparr>ID = ''u2'', Username = ''c@x.com'', GivenName = ''Cy'', FamilyName = ''Lee'',
                       Active = True\<rparr>]"
    by simp
  from getGroupUsersOperations_classifies [OF dg da ops grp usr] ops
  show ?thesis by (simp add: lookupList_def)
qed


section \<open>Lemmas about call traces\<close>

subsection \<open>Programs that emit only calls of one kind\<close>









lemmas call_defs =
  call_GetDeletedUsers_def call_Google_GetUsers_def call_Google_GetGroups_def
  call_GetGroupMembers_def call_FindUserByEmail_def call_CreateUser_def call_UpdateUser_def
  call_DeleteUser_def call_Aws_GetUsers_def call_FindGroupByDisplayName_def
  call_CreateGroup_def call_DeleteGroup_def call_Aws_GetGroups_def call_IsUserInGroup_def
  call_AddUserToGroup_def call_RemoveUserFromGroup_def














subsection \<open>Runs of calls in phase order\<close>








subsection \<open>Stopping at the first error\<close>

lemma failStop_returnE: "failStop (returnE a)"
  by (simp add: failStop_def returnE_def)

lemma failStop_invoke:
  assumes "\<And>u. c \<noteq> CreateUser u"
  shows "failStop (invoke c f)"
  unfolding failStop_def
proof
  fix st :: "'a run_state"
  obtain r w' where f: "f (world st) = (r, w')" by (cases "f (world st)")
  have ns: "\<not> swallowed (c, x)" for x
    using assms by (cases c) (auto simp: swallowed_def)
  show "case invoke c f st of
          (Inl err, st') \<Rightarrow>
            \<exists>pre c. calls st' = calls st @ pre @ [(c, Some err)] \<and>
                    \<not> swallowed (c, Some err) \<and> list_all wentWell pre
        | (Inr a, st') \<Rightarrow> \<exists>ext. calls st' = calls st @ ext \<and> list_all wentWell ext"
  proof (cases r)
    case (Inl err)
    then show ?thesis using f ns
      by (auto simp: invoke_def outcome_def intro!: exI [of _ "[]"] exI [of _ c])
  next
    case (Inr a)
    then show ?thesis using f
      by (auto simp: invoke_def outcome_def wentWell_def)
  qed
qed

lemma failStop_bindE:
  assumes "failStop m" and "\<And>a. failStop (f a)"
  shows "failStop (bindE m f)"
  unfolding failStop_def
proof
  fix st
  obtain r st1 where m: "m st = (r, st1)" by (cases "m st")
  show "case bindE m f st of
          (Inl err, st') \<Rightarrow>
            \<exists>pre c. calls st' = calls st @ pre @ [(c, Some err)] \<and>
                    \<not> swallowed (c, Some err) \<and> list_all wentWell pre
        | (Inr a, st') \<Rightarrow> \<exists>ext. calls st' = calls st @ ext \<and> list_all wentWell ext"
  proof (cases r)
    case (Inl err)
    with assms(1) m show ?thesis
      unfolding failStop_def bindE_def by (auto split: prod.splits sum.splits dest!: spec [of _ st])
  next
    case (Inr a)
    with assms(1) m obtain e1 where e1: "calls st1 = calls st @ e1" "list_all wentWell e1"
      unfolding failStop_def by (auto dest!: spec [of _ st])
    obtain r2 st2 where f: "f a st1 = (r2, st2)" by (cases "f a st1")
    show ?thesis
    proof (cases r2)
      case (Inl err)
      with assms(2) [of a] f obtain pre c where
        "calls st2 = calls st1 @ pre @ [(c, Some err)]" "\<not> swallowed (c, Some err)"
        "list_all wentWell pre"
        unfolding failStop_def by (auto dest!: spec [of _ st1])
      with e1 have "calls st2 = calls st @ (e1 @ pre) @ [(c, Some err)] \<and>
          \<not> swallowed (c, Some err) \<and> list_all wentWell (e1 @ pre)" by simp
      then show ?thesis using m Inr f Inl unfolding bindE_def by (auto simp del: append_assoc)
    next
      case (Inr b)
      with assms(2) [of a] f obtain e2 where
        "calls st2 = calls st1 @ e2" "list_all wentWell e2"
        unfolding failStop_def by (auto dest!: spec [of _ st1])
      with e1 have "calls st2 = calls st @ (e1 @ e2) \<and> list_all wentWell (e1 @ e2)" by simp
      then show ?thesis using m \<open>r = Inr a\<close> f Inr unfolding bindE_def
        by (auto simp del: append_assoc)
    qed
  qed
qed

lemma failStop_forEach:
  assumes "\<And>x. failStop (body x)"
  shows "failStop (forEach xs body)"
  by (induction xs) (simp_all add: failStop_returnE failStop_bindE assms)

lemma failStop_forEachAcc:
  assumes "\<And>x acc. failStop (body x acc)"
  shows "failStop (forEachAcc xs acc body)"
  by (induction xs arbitrary: acc) (simp_all add: failStop_returnE failStop_bindE assms)

lemma failStop_case_prod:
  "(\<And>x y. failStop (f x y)) \<Longrightarrow> failStop (case a of (x, y) \<Rightarrow> f x y)"
  by (cases a) simp

lemma failStop_if:
  "failStop m \<Longrightarrow> failStop n \<Longrightarrow> failStop (if b then m else n)"
  by simp

lemma failStop_calls:
  "failStop (call_Google_GetUsers s q)"
  "failStop (call_Google_GetGroups s q)"
  "failStop (call_GetGroupMembers s g)"
  "failStop (call_FindUserByEmail s e)"
  "failStop (call_Aws_GetUsers s)"
  "failStop (call_Aws_GetGroups s)"
  "failStop (call_FindGroupByDisplayName s n)"
  "failStop (call_IsUserInGroup s u ag)"
  "failStop (call_DeleteUser s u)"
  "failStop (call_UpdateUser s u)"
  "failStop (call_CreateGroup s ag)"
  "failStop (call_AddUserToGroup s u ag)"
  "failStop (call_RemoveUserFromGroup s u ag)"
  "failStop (call_DeleteGroup s ag)"
  by (simp_all add: call_defs failStop_invoke)

lemma failStop_createUserStep: "failStop (createUserStep s u)"
  unfolding failStop_def
proof
  fix st :: "'a run_state"
  obtain r w' where f: "aws_CreateUser (s_aws s) u (world st) = (r, w')"
    by (cases "aws_CreateUser (s_aws s) u (world st)")
  show "case createUserStep s u st of
          (Inl err, st') \<Rightarrow>
            \<exists>pre c. calls st' = calls st @ pre @ [(c, Some err)] \<and>
                    \<not> swallowed (c, Some err) \<and> list_all wentWell pre
        | (Inr a, st') \<Rightarrow> \<exists>ext. calls st' = calls st @ ext \<and> list_all wentWell ext"
  proof (cases r)
    case (Inl err)
    show ?thesis
    proof (cases "is409 err")
      case True
      then show ?thesis using f Inl
        by (simp add: createUserStep_def call_CreateUser_def invoke_def outcome_def
            wentWell_def swallowed_def)
    next
      case False
      then have "\<not> swallowed (CreateUser u, Some err)" by (simp add: swallowed_def)
      then show ?thesis using f Inl False
        by (auto simp: createUserStep_def call_CreateUser_def invoke_def outcome_def
            intro!: exI [of _ "[]"] exI [of _ "CreateUser u"])
    qed
  next
    case (Inr a)
    then show ?thesis using f
      by (simp add: createUserStep_def call_CreateUser_def invoke_def outcome_def wentWell_def)
  qed
qed

lemma failStop_getGoogleGroupsAndUsers:
  "failStop (getGoogleGroupsAndUsers s rangeOrder googleGroups)"
proof -
  have ms: "failStop (memberStep s m acc)" for m acc
    unfolding memberStep_def
    by (auto intro!: failStop_case_prod failStop_bindE failStop_returnE failStop_calls
        split: list.splits)
  have gs: "failStop (groupStep s g acc)" for g acc
    unfolding groupStep_def
    by (auto intro!: failStop_case_prod failStop_bindE failStop_returnE failStop_calls
        failStop_forEachAcc ms)
  show ?thesis
    unfolding getGoogleGroupsAndUsers_def
    by (intro failStop_bindE failStop_forEachAcc gs failStop_case_prod failStop_returnE)
qed

lemma failStop_getAWSGroupsAndUsers:
  "failStop (getAWSGroupsAndUsers s awsGroups awsUsers)"
  unfolding getAWSGroupsAndUsers_def
  by (intro failStop_bindE failStop_forEachAcc failStop_returnE failStop_calls)

lemma failStop_phases:
  "failStop (deleteUsers s us)"
  "failStop (updateUsers s us)"
  "failStop (addUsers s us)"
  "failStop (addGroups s ggu gs)"
  "failStop (reconcileGroups s ggu del gs)"
  "failStop (deleteGroups s gs)"
  unfolding deleteUsers_def updateUsers_def addUsers_def addGroups_def reconcileGroups_def
    deleteGroups_def
  by (intro failStop_forEach failStop_bindE failStop_calls failStop_returnE failStop_if
      failStop_createUserStep)+

lemma failStop_SyncGroupsUsers: "failStop (SyncGroupsUsers s rangeOrder query)"
  unfolding SyncGroupsUsers_def Let_def
  by (intro failStop_bindE failStop_case_prod failStop_calls failStop_phases
      failStop_getGoogleGroupsAndUsers failStop_getAWSGroupsAndUsers)


section \<open>Lemmas about single steps\<close>

text \<open>
  For every pair of clients: when the lookup of step 2 finds a record, that record is the
  argument of the \<^verbatim>\<open>UpdateUser\<close> call that follows; the attributes of the entry of
  \<^verbatim>\<open>updateAWSUsers\<close>, other than its username, do not reach the store.
\<close>

lemma updateUsers_passes_lookup_result:
  "aws_FindUserByEmail (s_aws s) (Username awsUser) (world st) = (Inr awsUserFull, w') \<Longrightarrow>
   updateUsers s (awsUser # rest) st =
     bindE (call_UpdateUser s awsUserFull) (\<lambda>_. updateUsers s rest)
       (st\<lparr>world := w', calls := calls st @ [(FindUserByEmail (Username awsUser), None)]\<rparr>)"
  by (simp add: updateUsers_def bindE_def returnE_def call_FindUserByEmail_def invoke_def
      outcome_def split: prod.splits sum.splits)

text \<open>
  Scenario 5 under any order of visiting \<^verbatim>\<open>gUniqUsers\<close>: the map holds the same user under
  two keys, so the list of its values names one primary email twice.
\<close>

lemma getGoogleGroupsAndUsers_scenario5:
  "fst (getGoogleGroupsAndUsers sync5 rangeOrder (d_groups dir5) (start store5)) =
     Inr (map snd (rangeOrder
            [(''alias@x.com'', \<lparr>PrimaryEmail = ''a@x.com'', G_GivenName = ''Ann'',
                                 G_FamilyName = ''Lee'', Suspended = False\<rparr>),
             (''a@x.com'', \<lparr>PrimaryEmail = ''a@x.com'', G_GivenName = ''Ann'',
                             G_FamilyName = ''Lee'', Suspended = False\<rparr>)]),
          [(''G'',
            [\<lparr>PrimaryEmail = ''a@x.com'', G_GivenName = ''Ann'', G_FamilyName = ''Lee'',
              Suspended = False\<rparr>,
             \<lparr>PrimaryEmail = ''a@x.com'', G_GivenName = ''Ann'', G_FamilyName = ''Lee'',
              Suspended = False\<rparr>])])"
  by (simp add: getGoogleGroupsAndUsers_def groupStep_def memberStep_def bindE_def returnE_def
      sync5_def dir5_def store5_def start_def noFilter_def memGoogle_def ignoreGroup_def
      ignoreUser_def call_GetGroupMembers_def call_Google_GetUsers_def invoke_def outcome_def
      lookupList_def)

lemma two_entries_one_key:
  assumes "length xs = 2" and "set xs \<subseteq> {p, q}" and "f p = f q"
  shows "\<not> distinct (map f xs)"
proof -
  from assms(1) obtain x y where xs: "xs = [x, y]"
    by (metis (no_types, opaque_lifting) One_nat_def Suc_1 Suc_length_conv length_0_conv)
  with assms(2,3) show ?thesis by auto
qed

lemma getGoogleGroupsAndUsers_duplicate_any_order:
  assumes "length (rangeOrder
            [(''alias@x.com'', \<lparr>PrimaryEmail = ''a@x.com'', G_GivenName = ''Ann'',
                                 G_FamilyName = ''Lee'', Suspended = False\<rparr>),
             (''a@x.com'', \<lparr>PrimaryEmail = ''a@x.com'', G_GivenName = ''Ann'',
                             G_FamilyName = ''Lee'', Suspended = False\<rparr>)]) = 2"
    and "set (rangeOrder
            [(''alias@x.com'', \<lparr>PrimaryEmail = ''a@x.com'', G_GivenName = ''Ann'',
                                 G_FamilyName = ''Lee'', Suspended = False\<rparr>),
             (''a@x.com'', \<lparr>PrimaryEmail = ''a@x.com'', G_GivenName = ''Ann'',
                             G_FamilyName = ''Lee'', Suspended = False\<rparr>)])
         \<subseteq> {(''alias@x.com'', \<lparr>PrimaryEmail = ''a@x.com'', G_GivenName = ''Ann'',
                                  G_FamilyName = ''Lee'', Suspended = False\<rparr>),
              (''a@x.com'', \<lparr>PrimaryEmail = ''a@x.com'', G_GivenName = ''Ann'',
                              G_FamilyName = ''Lee'', Suspended = False\<rparr>)}"
  shows "\<exists>gUsers gGroupsUsers.
           fst (getGoogleGroupsAndUsers sync5 rangeOrder (d_groups dir5) (start store5)) =
             Inr (gUsers, gGroupsUsers)
         \<and> \<not> distinct (map PrimaryEmail gUsers)"
proof -
  have "\<not> distinct (map (\<lambda>p. PrimaryEmail (snd p)) (rangeOrder
            [(''alias@x.com'', \<lparr>PrimaryEmail = ''a@x.com'', G_GivenName = ''Ann'',
                                 G_FamilyName = ''Lee'', Suspended = False\<rparr>),
             (''a@x.com'', \<lparr>PrimaryEmail = ''a@x.com'', G_GivenName = ''Ann'',
                             G_FamilyName = ''Lee'', Suspended = False\<rparr>)]))"
    by (rule two_entries_one_key [OF assms]) simp
  then show ?thesis
    unfolding getGoogleGroupsAndUsers_scenario5 by (simp add: comp_def)
qed


section \<open>Properties of the apply pipeline\<close>

text \<open>
  Claim C1 says that step 2 sends, for every user classified \<^verbatim>\<open>update\<close>, a record carrying
  the source's current attributes. The loop of \<^verbatim>\<open>SyncGroupsUsers\<close> looks the user up by
  email and passes the record that the lookup returned, \<^verbatim>\<open>awsUserFull\<close>, to
  \<^verbatim>\<open>UpdateUser\<close>; the record built by \<^verbatim>\<open>getUserOperations\<close> is used for its username
  only. In scenario 1 the source suspends \<^verbatim>\<open>c@x.com\<close>, the diff asks for an update, and the
  run sends the target's own record, still active, and leaves the store as it was.
\<close>

theorem SyncGroupsUsers_update_sends_target_record:
  "getUserOperations (st_users store1)
     [\<lparr>PrimaryEmail = ''c@x.com'', G_GivenName = ''Cy'', G_FamilyName = ''Lee'', Suspended = True\<rparr>] =
     ([], [],
      [\<lparr>ID = [], Username = ''c@x.com'', GivenName = ''Cy'', FamilyName = ''Lee'', Active = False\<rparr>],
      [])
   \<and> SyncGroupsUsers sync1 insertionOrder [] (start store1) =
     (Inr (),
      \<lparr>world = store1,
       calls =
         [(Google_GetGroups [], None),
          (GetGroupMembers \<lparr>Email = ''g@x.com'', Name = ''G''\<rparr>, None),
          (Google_GetUsers ''email:c@x.com'', None),
          (Aws_GetGroups, None),
          (Aws_GetUsers, None),
          (IsUserInGroup
             \<lparr>ID = ''u1'', Username = ''c@x.com'', GivenName = ''Cy'', FamilyName = ''Lee'',
              Active = True\<rparr>
             \<lparr>GroupID = ''g1'', DisplayName = ''G''\<rparr>, None),
          (FindUserByEmail ''c@x.com'', None),
          (UpdateUser
             \<lparr>ID = ''u1'', Username = ''c@x.com'', GivenName = ''Cy'', FamilyName = ''Lee'',
              Active = True\<rparr>, None),
          (FindUserByEmail ''c@x.com'', None),
          (IsUserInGroup
             \<lparr>ID = ''u1'', Username = ''c@x.com'', GivenName = ''Cy'', FamilyName = ''Lee'',
              Active = True\<rparr>
             \<lparr>GroupID = ''g1'', DisplayName = ''G''\<rparr>, None)],
       s_users = []\<rparr>)"
  by code_simp




text \<open>
  Claim C6: in step 3 a 409 answer to \<^verbatim>\<open>CreateUser\<close> is swallowed. The loop goes on with
  the remaining users from the state the call left, exactly as for a list without that user;
  so does the loop followed by any later steps; and whenever a run of \<^verbatim>\<open>SyncGroupsUsers\<close>
  returns an error, the call that produced it is the last one made and is not a swallowed
  conflict.
\<close>

theorem addUsers_conflict_swallowed:
  "(aws_CreateUser (s_aws s) awsUser (world st) = (Inl (ErrHttpNotOK 409), w') \<longrightarrow>
      addUsers s (awsUser # rest) st =
        addUsers s rest
          (st\<lparr>world := w',
              calls := calls st @ [(CreateUser awsUser, Some (ErrHttpNotOK 409))]\<rparr>))
   \<and> (aws_CreateUser (s_aws s) awsUser (world st) = (Inl (ErrHttpNotOK 409), w') \<longrightarrow>
      bindE (addUsers s (awsUser # rest)) laterSteps st =
        bindE (addUsers s rest) laterSteps
          (st\<lparr>world := w',
              calls := calls st @ [(CreateUser awsUser, Some (ErrHttpNotOK 409))]\<rparr>))
   \<and> (SyncGroupsUsers s rangeOrder query st0 = (Inl err, st1) \<longrightarrow>
        (\<exists>pre c. calls st1 = calls st0 @ pre @ [(c, Some err)] \<and>
                 \<not> swallowed (c, Some err) \<and> list_all wentWell pre))"
proof (intro conjI impI)
  assume "aws_CreateUser (s_aws s) awsUser (world st) = (Inl (ErrHttpNotOK 409), w')"
  then show "bindE (addUsers s (awsUser # rest)) laterSteps st =
        bindE (addUsers s rest) laterSteps
          (st\<lparr>world := w',
              calls := calls st @ [(CreateUser awsUser, Some (ErrHttpNotOK 409))]\<rparr>)"
    by (simp add: addUsers_def bindE_def createUserStep_def call_CreateUser_def invoke_def
        outcome_def is409_def)
next
  assume "aws_CreateUser (s_aws s) awsUser (world st) = (Inl (ErrHttpNotOK 409), w')"
  then show "addUsers s (awsUser # rest) st =
        addUsers s rest
          (st\<lparr>world := w',
              calls := calls st @ [(CreateUser awsUser, Some (ErrHttpNotOK 409))]\<rparr>)"
    by (simp add: addUsers_def bindE_def createUserStep_def call_CreateUser_def invoke_def
        outcome_def is409_def)
next
  assume "SyncGroupsUsers s rangeOrder query st0 = (Inl err, st1)"
  with failStop_SyncGroupsUsers [of s rangeOrder query]
  show "\<exists>pre c. calls st1 = calls st0 @ pre @ [(c, Some err)] \<and>
                 \<not> swallowed (c, Some err) \<and> list_all wentWell pre"
    unfolding failStop_def by (auto dest!: spec [of _ st0])
qed

theorem addUsers_conflict_swallowed_witness:
  "aws_CreateUser (s_aws sync3)
     \<lparr>ID = [], Username = ''a@x.com'', GivenName = ''Ann'', FamilyName = ''Lee'', Active = True\<rparr>
     (world (start store3)) = (Inl (ErrHttpNotOK 409), store3)
   \<and> addUsers sync3
       [\<lparr>ID = [], Username = ''a@x.com'', GivenName = ''Ann'', FamilyName = ''Lee'', Active = True\<rparr>]
       (start store3) =
     addUsers sync3 []
       ((start store3)\<lparr>world := store3,
          calls := calls (start store3) @
            [(CreateUser \<lparr>ID = [], Username = ''a@x.com'', GivenName = ''Ann'',
                          FamilyName = ''Lee'', Active = True\<rparr>, Some (ErrHttpNotOK 409))]\<rparr>)
   \<and> SyncGroupsUsers sync3 insertionOrder [] (start store3) =
     (Inr (),
      \<lparr>world = store3\<lparr>st_members := [(''G'', ''a@x.com'')]\<rparr>,
       calls =
         [(Google_GetGroups [], None),
          (GetGroupMembers \<lparr>Email = ''g@x.com'', Name = ''G''\<rparr>, None),
          (Google_GetUsers ''email:a@x.com'', None),
          (Aws_GetGroups, None),
          (Aws_GetUsers, None),
          (CreateUser \<lparr>ID = [], Username = ''a@x.com'', GivenName = ''Ann'', FamilyName = ''Lee'',
                       Active = True\<rparr>, Some (ErrHttpNotOK 409)),
          (FindUserByEmail ''a@x.com'', None),
          (IsUserInGroup
             \<lparr>ID = ''u1'', Username = ''a@x.com'', GivenName = ''Ann'', FamilyName = ''Lee'',
              Active = True\<rparr>
             \<lparr>GroupID = ''g1'', DisplayName = ''G''\<rparr>, None),
          (AddUserToGroup
             \<lparr>ID = ''u1'', Username = ''a@x.com'', GivenName = ''Ann'', FamilyName = ''Lee'',
              Active = True\<rparr>
             \<lparr>GroupID = ''g1'', DisplayName = ''G''\<rparr>, None)],
       s_users = []\<rparr>)"
proof -
  have h: "aws_CreateUser (s_aws sync3)
     \<lparr>ID = [], Username = ''a@x.com'', GivenName = ''Ann'', FamilyName = ''Lee'', Active = True\<rparr>
     (world (start store3)) = (Inl (ErrHttpNotOK 409), store3)"
    by (simp add: sync3_def start_def memAws_def store3_def)
  have run: "SyncGroupsUsers sync3 insertionOrder [] (start store3) =
     (Inr (),
      \<lparr>world = store3\<lparr>st_members := [(''G'', ''a@x.com'')]\<rparr>,
       calls =
         [(Google_GetGroups [], None),
          (GetGroupMembers \<lparr>Email = ''g@x.com'', Name = ''G''\<rparr>, None),
          (Google_GetUsers ''email:a@x.com'', None),
          (Aws_GetGroups, None),
          (Aws_GetUsers, None),
          (CreateUser \<lparr>ID = [], Username = ''a@x.com'', GivenName = ''Ann'', FamilyName = ''Lee'',
                       Active = True\<rparr>, Some (ErrHttpNotOK 409)),
          (FindUserByEmail ''a@x.com'', None),
          (IsUserInGroup
             \<lparr>ID = ''u1'', Username = ''a@x.com'', GivenName = ''Ann'', FamilyName = ''Lee'',
              Active = True\<rparr>
             \<lparr>GroupID = ''g1'', DisplayName = ''G''\<rparr>, None),
          (AddUserToGroup
             \<lparr>ID = ''u1'', Username = ''a@x.com'', GivenName = ''Ann'', FamilyName = ''Lee'',
              Active = True\<rparr>
             \<lparr>GroupID = ''g1'', DisplayName = ''G''\<rparr>, None)],
       s_users = []\<rparr>)"
    by code_simp
  from addUsers_conflict_swallowed
         [of sync3 "\<lparr>ID = [], Username = ''a@x.com'', GivenName = ''Ann'', FamilyName = ''Lee'',
                     Active = True\<rparr>" "start store3" store3 "[]"] h
  have "addUsers sync3
       [\<lparr>ID = [], Username = ''a@x.com'', GivenName = ''Ann'', FamilyName = ''Lee'', Active = True\<rparr>]
       (start store3) =
     addUsers sync3 []
       ((start store3)\<lparr>world := store3,
          calls := calls (start store3) @
            [(CreateUser \<lparr>ID = [], Username = ''a@x.com'', GivenName = ''Ann'',
                          FamilyName = ''Lee'', Active = True\<rparr>, Some (ErrHttpNotOK 409))]\<rparr>)"
    by blast
  with h run show ?thesis by blast
qed



text \<open>
  Claim C9 says that the flat user list of \<^verbatim>\<open>getGoogleGroupsAndUsers\<close> never holds two
  users with the same primary email, also when one user is reached through distinct member
  addresses. The function keys its map \<^verbatim>\<open>gUniqUsers\<close> by the member address
  \<^verbatim>\<open>m.Email\<close>, not by the primary email of the user it resolved. In scenario 5 two
  member addresses resolve to one user, and the user is returned twice.
\<close>

theorem getGoogleGroupsAndUsers_duplicate_primary_email:
  "fst (getGoogleGroupsAndUsers sync5 insertionOrder (d_groups dir5) (start store5)) =
     Inr ([\<lparr>PrimaryEmail = ''a@x.com'', G_GivenName = ''Ann'', G_FamilyName = ''Lee'',
            Suspended = False\<rparr>,
           \<lparr>PrimaryEmail = ''a@x.com'', G_GivenName = ''Ann'', G_FamilyName = ''Lee'',
            Suspended = False\<rparr>],
          [(''G'',
            [\<lparr>PrimaryEmail = ''a@x.com'', G_GivenName = ''Ann'', G_FamilyName = ''Lee'',
              Suspended = False\<rparr>,
             \<lparr>PrimaryEmail = ''a@x.com'', G_GivenName = ''Ann'', G_FamilyName = ''Lee'',
              Suspended = False\<rparr>])])
   \<and> \<not> distinct (map PrimaryEmail
         [\<lparr>PrimaryEmail = ''a@x.com'', G_GivenName = ''Ann'', G_FamilyName = ''Lee'',
            Suspended = False\<rparr>,
          \<lparr>PrimaryEmail = ''a@x.com'', G_GivenName = ''Ann'', G_FamilyName = ''Lee'',
            Suspended = False\<rparr>])"
  by code_simp


section \<open>Properties of the alternate mode\<close>

text \<open>
  Claim C10: in \<^verbatim>\<open>SyncUsers\<close>, for a source user that the target store finds by email and
  whose target active flag differs from the source suspended flag, the loop body makes the
  lookup and no other call: it records the user in \<^verbatim>\<open>s.users\<close> and goes on, whatever the
  given and family names are on the two sides. A user on the ignore-list causes no call at
  all.
\<close>

theorem syncUserStep_no_update_when_flags_agree:
  "(\<not> ignoreUser (s_cfg s) (PrimaryEmail u) \<and>
    aws_FindUserByEmail (s_aws s) (PrimaryEmail u) (world st) = (Inr uu, w') \<and>
    Active uu \<noteq> Suspended u \<longrightarrow>
      syncUserStep s u st =
        (Inr (),
         st\<lparr>world := w',
            calls := calls st @ [(FindUserByEmail (PrimaryEmail u), None)],
            s_users := AList.update (Username uu) uu (s_users st)\<rparr>))
   \<and> (ignoreUser (s_cfg s) (PrimaryEmail u) \<longrightarrow> syncUserStep s u st = (Inr (), st))"
  by (simp add: syncUserStep_def bindE_def returnE_def setUser_def call_FindUserByEmail_def
      invoke_def outcome_def)

theorem syncUserStep_no_update_when_flags_agree_witness:
  "\<not> ignoreUser (s_cfg sync6) ''c@x.com''
   \<and> aws_FindUserByEmail (s_aws sync6) ''c@x.com'' (world (start store1)) =
       (Inr \<lparr>ID = ''u1'', Username = ''c@x.com'', GivenName = ''Cy'', FamilyName = ''Lee'',
             Active = True\<rparr>, store1)
   \<and> GivenName \<lparr>ID = ''u1'', Username = ''c@x.com'', GivenName = ''Cy'', FamilyName = ''Lee'',
                 Active = True\<rparr> \<noteq> ''Cyrus''
   \<and> syncUserStep sync6
       \<lparr>PrimaryEmail = ''c@x.com'', G_GivenName = ''Cyrus'', G_FamilyName = ''Lee'',
        Suspended = False\<rparr> (start store1) =
       (Inr (),
        (start store1)\<lparr>world := store1,
           calls := calls (start store1) @ [(FindUserByEmail ''c@x.com'', None)],
           s_users := AList.update ''c@x.com''
              \<lparr>ID = ''u1'', Username = ''c@x.com'', GivenName = ''Cy'', FamilyName = ''Lee'',
               Active = True\<rparr> (s_users (start store1))\<rparr>)
   \<and> SyncUsers sync6 [] (start store1) =
       (Inr (),
        \<lparr>world = store1,
         calls = [(GetDeletedUsers, None), (Google_GetUsers [], None),
                  (FindUserByEmail ''c@x.com'', None)],
         s_users = [(''c@x.com'',
                     \<lparr>ID = ''u1'', Username = ''c@x.com'', GivenName = ''Cy'',
                      FamilyName = ''Lee'', Active = True\<rparr>)]\<rparr>)"
proof -
  have h1: "\<not> ignoreUser (s_cfg sync6)
              (PrimaryEmail \<lparr>PrimaryEmail = ''c@x.com'', G_GivenName = ''Cyrus'',
                             G_FamilyName = ''Lee'', Suspended = False\<rparr>)"
    by (simp add: sync6_def noFilter_def ignoreUser_def)
  have h2: "aws_FindUserByEmail (s_aws sync6)
              (PrimaryEmail \<lparr>PrimaryEmail = ''c@x.com'', G_GivenName = ''Cyrus'',
                             G_FamilyName = ''Lee'', Suspended = False\<rparr>)
              (world (start store1)) =
       (Inr \<lparr>ID = ''u1'', Username = ''c@x.com'', GivenName = ''Cy'', FamilyName = ''Lee'',
             Active = True\<rparr>, store1)"
    by (simp add: sync6_def start_def memAws_def store1_def)
  have run: "SyncUsers sync6 [] (start store1) =
       (Inr (),
        \<lparr>world = store1,
         calls = [(GetDeletedUsers, None), (Google_GetUsers [], None),
                  (FindUserByEmail ''c@x.com'', None)],
         s_users = [(''c@x.com'',
                     \<lparr>ID = ''u1'', Username = ''c@x.com'', GivenName = ''Cy'',
                      FamilyName = ''Lee'', Active = True\<rparr>)]\<rparr>)"
    by code_simp
  from syncUserStep_no_update_when_flags_agree
         [of sync6 "\<lparr>PrimaryEmail = ''c@x.com'', G_GivenName = ''Cyrus'', G_FamilyName = ''Lee'',
                     Suspended = False\<rparr>" "start store1"
             "\<lparr>ID = ''u1'', Username = ''c@x.com'', GivenName = ''Cy'', FamilyName = ''Lee'',
               Active = True\<rparr>" store1] h1 h2 run
  show ?thesis by simp
qed

end
